theory Spec2Isabelle
  imports Main "HOL-Library.Multiset"
begin

section \<open>Errors\<close>

text \<open>
  The only exception the modelled code throws is \<^verbatim>\<open>std.OutOfRange\<close>. A throwing
  method returns \<open>Inl\<close> of it.
\<close>

datatype error = OutOfRange

section \<open>Vector (Vector.ts)\<close>

subsection \<open>The built-in Array the Vector extends\<close>

text \<open>
  \<^verbatim>\<open>class Vector<T> extends Array<T>\<close>. A Vector holds its elements at the indices
  \<open>0 .. length - 1\<close>; a slot can hold \<^verbatim>\<open>undefined\<close> (the fill constructor
  \<^verbatim>\<open>this.length = size\<close> makes such slots), so a slot is an \<open>'a option\<close> with \<open>None\<close>
  for \<^verbatim>\<open>undefined\<close>. A read \<^verbatim>\<open>this[i]\<close> at an index that is no element's index is
  a property read: it gives \<^verbatim>\<open>undefined\<close> unless an earlier \<^verbatim>\<open>this[i] = x\<close> made the
  property. These properties are kept beside the elements, in \<open>props\<close>; what \<open>props\<close>
  holds at an element's index is not read. Indices are whole numbers of either sign
  (\<open>int\<close>).
\<close>

record 'a Vector =
  elems :: "'a option list"
  props :: "int \<Rightarrow> 'a option"

text \<open>
  What a Vector instance is depends on the target the class is compiled for.
  \<^item> With the ES6 emit (a native \<^verbatim>\<open>class ... extends Array\<close>) the instance is an Array
    exotic object: a write \<^verbatim>\<open>this[i] = x\<close> at \<open>i \<ge> length\<close> sets \<^verbatim>\<open>length\<close> to \<open>i + 1\<close>,
    and there is no property at a non-negative index outside the elements.
  \<^item> With the ES5 emit (\<^verbatim>\<open>_super.call(this)\<close> in a constructor function whose prototype
    chain reaches \<^verbatim>\<open>Array.prototype\<close>) the instance is an ordinary object: \<^verbatim>\<open>length\<close> is
    a property that \<^verbatim>\<open>push\<close> and \<^verbatim>\<open>splice\<close> keep, and a write \<^verbatim>\<open>this[i] = x\<close> at
    \<open>i \<ge> length\<close> makes a property and leaves \<^verbatim>\<open>length\<close> as it is.

  The two differ only in the assignment \<^verbatim>\<open>this[index] = val\<close>, which takes the target.
\<close>

datatype target = ES5 | ES6

definition Array_get :: "'a Vector \<Rightarrow> int \<Rightarrow> 'a option" where
  \<comment> \<open>\<^verbatim>\<open>this[index]\<close>\<close>
  "Array_get v i =
     (if 0 \<le> i \<and> i < int (length (elems v)) then elems v ! nat i else props v i)"

definition Array_put :: "target \<Rightarrow> 'a Vector \<Rightarrow> int \<Rightarrow> 'a option \<Rightarrow> 'a Vector" where
  \<comment> \<open>\<^verbatim>\<open>this[index] = val\<close>: overwrites a slot; at or past the length it extends the
      array (with holes) where the instance is an Array exotic object and makes a
      property where it is an ordinary object; makes a property at a negative index\<close>
  "Array_put tgt v i x =
     (if 0 \<le> i \<and> i < int (length (elems v)) then v\<lparr>elems := (elems v)[nat i := x]\<rparr>
      else if 0 \<le> i \<and> tgt = ES6 then
        v\<lparr>elems := elems v @ replicate (nat i - length (elems v)) None @ [x]\<rparr>
      else v\<lparr>props := (props v)(i := x)\<rparr>)"

definition Array_push :: "'a Vector \<Rightarrow> 'a option \<Rightarrow> 'a Vector" where
  \<comment> \<open>\<^verbatim>\<open>super.push(val)\<close>\<close>
  "Array_push v x = v\<lparr>elems := elems v @ [x]\<rparr>"

definition Array_push_all :: "'a Vector \<Rightarrow> 'a option list \<Rightarrow> 'a Vector" where
  \<comment> \<open>\<^verbatim>\<open>super.push(...array)\<close>\<close>
  "Array_push_all v xs = v\<lparr>elems := elems v @ xs\<rparr>"

definition Array_splice :: "'a Vector \<Rightarrow> int \<Rightarrow> int option \<Rightarrow> 'a option list \<times> 'a Vector" where
  \<comment> \<open>\<^verbatim>\<open>super.splice(start)\<close> (\<open>None\<close>) and \<^verbatim>\<open>super.splice(start, deleteCount)\<close>: a
      negative start counts from the end, both arguments are clamped to the array; the
      removed elements are returned\<close>
  "Array_splice v start cnt =
     (let n = int (length (elems v));
          s = (if start < 0 then max (n + start) 0 else min start n);
          c = (case cnt of None \<Rightarrow> n - s | Some d \<Rightarrow> min (max d 0) (n - s))
      in (take (nat c) (drop (nat s) (elems v)),
          v\<lparr>elems := take (nat s) (elems v) @ drop (nat (s + c)) (elems v)\<rparr>))"

subsection \<open>Accessors\<close>

text \<open>
  A \<^verbatim>\<open>VectorIterator\<close> is a source vector and an index, \<open>-1\<close> for \<^verbatim>\<open>end()\<close>. The
  model passes the source beside the index.
\<close>

type_synonym VectorIterator = int

definition Vector_size :: "'a Vector \<Rightarrow> int" where
  "Vector_size v = int (length (elems v))"

definition Vector_empty :: "'a Vector \<Rightarrow> bool" where
  "Vector_empty v = (Vector_size v = 0)"

definition Vector_end :: "'a Vector \<Rightarrow> VectorIterator" where
  "Vector_end v = -1"

definition Vector_begin :: "'a Vector \<Rightarrow> VectorIterator" where
  "Vector_begin v = (if Vector_empty v then Vector_end v else 0)"

definition Vector_at :: "'a Vector \<Rightarrow> int \<Rightarrow> error + 'a option" where
  "Vector_at v index =
     (if index < Vector_size v then Inr (Array_get v index) else Inl OutOfRange)"

text \<open>
  \<^verbatim>\<open>set\<close> is the one accessor that assigns. Its result is the outcome (the thrown
  error or the returned previous occupant) and the vector after the call; the throw
  comes before the assignment.
\<close>

definition Vector_set ::
  "target \<Rightarrow> 'a Vector \<Rightarrow> int \<Rightarrow> 'a option \<Rightarrow> (error + 'a option) \<times> 'a Vector" where
  "Vector_set tgt v index val =
     (if index > Vector_size v then (Inl OutOfRange, v)
      else (let prev = Array_get v index in (Inr prev, Array_put tgt v index val)))"

definition Vector_front :: "'a Vector \<Rightarrow> error + 'a option" where
  "Vector_front v = Vector_at v 0"

definition Vector_back :: "'a Vector \<Rightarrow> error + 'a option" where
  "Vector_back v = Vector_at v (Vector_size v - 1)"

subsection \<open>VectorIterator\<close>

definition VectorIterator_value :: "'a Vector \<Rightarrow> VectorIterator \<Rightarrow> error + 'a option" where
  "VectorIterator_value src i = Vector_at src i"

definition VectorIterator_next :: "'a Vector \<Rightarrow> VectorIterator \<Rightarrow> VectorIterator" where
  "VectorIterator_next src i = (if i \<ge> Vector_size src - 1 then Vector_end src else i + 1)"

definition VectorIterator_equal_to :: "VectorIterator \<Rightarrow> VectorIterator \<Rightarrow> bool" where
  \<comment> \<open>for two iterators of one source: the indices are compared\<close>
  "VectorIterator_equal_to i j = (i = j)"

subsection \<open>Erase, insert, assign, swap\<close>

definition Vector_erase_by_range ::
  "'a Vector \<Rightarrow> VectorIterator \<Rightarrow> VectorIterator \<Rightarrow> VectorIterator \<times> 'a Vector" where
  "Vector_erase_by_range v first last' =
     (if first = -1 then (first, v)
      else if last' = -1 then (Vector_end v, snd (Array_splice v first None))
      else (first, snd (Array_splice v first (Some (last' - first)))))"

definition Vector_erase ::
  "'a Vector \<Rightarrow> VectorIterator \<Rightarrow> VectorIterator \<Rightarrow> VectorIterator \<times> 'a Vector" where
  \<comment> \<open>\<^verbatim>\<open>erase(first, last)\<close> with forward iterators\<close>
  "Vector_erase v first last' = Vector_erase_by_range v first last'"

definition Vector_clear :: "'a Vector \<Rightarrow> 'a Vector" where
  "Vector_clear v = snd (Vector_erase v (Vector_begin v) (Vector_end v))"

text \<open>
  The loop of \<^verbatim>\<open>insert_by_range\<close>,
  \<^verbatim>\<open>for (; !first.equal_to(last); first = first.next()) super.push(first.value)\<close>,
  reads the source \<open>src\<close> of the two iterators and pushes to \<open>this\<close>, which is another
  object. It need not end (an empty source and a \<open>last\<close> that is not \<^verbatim>\<open>end()\<close>), so
  not returning is the value \<open>None\<close>.
\<close>

partial_function (option) Vector_push_range ::
  "'a Vector \<Rightarrow> 'a Vector \<Rightarrow> VectorIterator \<Rightarrow> VectorIterator \<Rightarrow> (error + 'a Vector) option" where
  "Vector_push_range this src first last' =
     (if VectorIterator_equal_to first last' then Some (Inr this)
      else (case VectorIterator_value src first of
              Inl e \<Rightarrow> Some (Inl e)
            | Inr x \<Rightarrow> Vector_push_range (Array_push this x) src (VectorIterator_next src first) last'))"

text \<open>
  Forward iteration of a vector,
  \<^verbatim>\<open>for (it = v.begin(); !it.equal_to(v.end()); it = it.next())\<close> reading \<^verbatim>\<open>it.value\<close>: the
  same walk, collecting the values it reads.
\<close>

definition Vector_forward :: "'a Vector \<Rightarrow> (error + 'a option list) option" where
  "Vector_forward v =
     (case Vector_push_range \<lparr>elems = [], props = (\<lambda>_. None)\<rparr> v (Vector_begin v) (Vector_end v) of
        None \<Rightarrow> None
      | Some (Inl e) \<Rightarrow> Some (Inl e)
      | Some (Inr w) \<Rightarrow> Some (Inr (elems w)))"

definition Vector_insert_by_range ::
  "'a Vector \<Rightarrow> VectorIterator \<Rightarrow> 'a Vector \<Rightarrow> VectorIterator \<Rightarrow> VectorIterator
     \<Rightarrow> (error + VectorIterator \<times> 'a Vector) option" where
  "Vector_insert_by_range this position src first last' =
     (if position = -1 then
        (case Vector_push_range this src first last' of
           None \<Rightarrow> None
         | Some (Inl e) \<Rightarrow> Some (Inl e)
         | Some (Inr this') \<Rightarrow> Some (Inr (Vector_begin this', this')))
      else
        (let (spliced_array, cut) = Array_splice this position None in
         case Vector_push_range cut src first last' of
           None \<Rightarrow> None
         | Some (Inl e) \<Rightarrow> Some (Inl e)
         | Some (Inr this') \<Rightarrow> Some (Inr (position, Array_push_all this' spliced_array))))"

definition Vector_insert ::
  "'a Vector \<Rightarrow> VectorIterator \<Rightarrow> 'a Vector \<Rightarrow> VectorIterator \<Rightarrow> VectorIterator
     \<Rightarrow> (error + VectorIterator \<times> 'a Vector) option" where
  \<comment> \<open>\<^verbatim>\<open>insert(position, begin, end)\<close> with forward iterators: three arguments, the
      second not a number\<close>
  "Vector_insert this position src first last' = Vector_insert_by_range this position src first last'"

definition Vector_assign ::
  "'a Vector \<Rightarrow> 'a Vector \<Rightarrow> VectorIterator \<Rightarrow> VectorIterator \<Rightarrow> (error + 'a Vector) option" where
  \<comment> \<open>\<^verbatim>\<open>assign(begin, end)\<close>: \<^verbatim>\<open>this.clear(); this.insert(this.end(), first, second)\<close>\<close>
  "Vector_assign this src first second =
     (let cleared = Vector_clear this in
      case Vector_insert cleared (Vector_end cleared) src first second of
        None \<Rightarrow> None
      | Some (Inl e) \<Rightarrow> Some (Inl e)
      | Some (Inr (_, this')) \<Rightarrow> Some (Inr this'))"

definition Vector_from_range ::
  "'a Vector \<Rightarrow> VectorIterator \<Rightarrow> VectorIterator \<Rightarrow> (error + 'a Vector) option" where
  \<comment> \<open>\<^verbatim>\<open>new Vector<T>(begin, end)\<close>: \<^verbatim>\<open>super()\<close>, then \<^verbatim>\<open>this.assign(begin, end)\<close>\<close>
  "Vector_from_range src first last' =
     Vector_assign \<lparr>elems = [], props = (\<lambda>_. None)\<rparr> src first last'"

text \<open>
  \<^verbatim>\<open>swap(obj)\<close> for an \<open>obj\<close> that is a Vector and another object than \<open>this\<close>. The
  result is the pair (\<open>this\<close>, \<open>obj\<close>) after the call.
\<close>

definition Vector_swap :: "'a Vector \<Rightarrow> 'a Vector \<Rightarrow> (error + 'a Vector \<times> 'a Vector) option" where
  "Vector_swap this obj =
     (case Vector_from_range this (Vector_begin this) (Vector_end this) of
        None \<Rightarrow> None
      | Some (Inl e) \<Rightarrow> Some (Inl e)
      | Some (Inr supplement) \<Rightarrow>
          (case Vector_assign this obj (Vector_begin obj) (Vector_end obj) of
             None \<Rightarrow> None
           | Some (Inl e) \<Rightarrow> Some (Inl e)
           | Some (Inr this') \<Rightarrow>
               (case Vector_assign obj supplement (Vector_begin supplement) (Vector_end supplement) of
                  None \<Rightarrow> None
                | Some (Inl e) \<Rightarrow> Some (Inl e)
                | Some (Inr obj') \<Rightarrow> Some (Inr (this', obj')))))"

section \<open>Comparators and equality (Functional.ts, not under src/)\<close>

text \<open>
  Modelled from the spec: \<^verbatim>\<open>std.less\<close> and \<^verbatim>\<open>std.equal_to\<close>, which TreeSet.ts and
  TreeMultiSet.ts call and whose file is not among the sources. The spec (section 6):
  "\<^verbatim>\<open>less(a,b)\<close>: \<^verbatim>\<open>a < b\<close> for numbers/strings" and "\<^verbatim>\<open>equal_to(a,b)\<close>: symmetric;
  defaults to deep structural equality". The elements are numbers or strings: values
  of a linearly ordered type.
\<close>

definition std_less :: "'a::linorder \<Rightarrow> 'a \<Rightarrow> bool" where
  "std_less x y = (x < y)"

definition std_equal_to :: "'a \<Rightarrow> 'a \<Rightarrow> bool" where
  "std_equal_to x y = (x = y)"

text \<open>
  The equivalence a comparator induces (spec, section 4.3):
  \<open>a \<equiv> b \<Longleftrightarrow> \<not> less(a,b) \<and> \<not> less(b,a)\<close>. No function of the sources computes it;
  the specification speaks of it.
\<close>

definition equivalent :: "('a \<Rightarrow> 'a \<Rightarrow> bool) \<Rightarrow> 'a \<Rightarrow> 'a \<Rightarrow> bool" where
  "equivalent lt a b = (\<not> lt a b \<and> \<not> lt b a)"

section \<open>Cells, iterators and the element list (List.ts, base/SetContainer.ts: not under src/)\<close>

text \<open>
  Modelled from the spec: the element list \<^verbatim>\<open>data_\<close> and the iterators over it. The
  spec (sections 3, 4.2 and 9): an element cell holds the user value and has a stable
  identity for its lifetime; an iterator is \<open>Cell(node) | End(container)\<close>; the list is
  an ordered sequence of cells and exposes \<^verbatim>\<open>insert(before, value) \<rightarrow> iterator\<close>,
  \<^verbatim>\<open>erase(range) \<rightarrow> iterator\<close>, \<^verbatim>\<open>begin\<close>, \<^verbatim>\<open>end\<close>; keys are immutable after insertion.
  A cell is its identity (a number that is never reused) and its value; an iterator
  to a cell names both, so it still reads the value of a cell that has left the list,
  as a reference to the cell object does. \<^verbatim>\<open>SetIterator\<close> and the list iterator it wraps
  (\<^verbatim>\<open>get_list_iterator()\<close>, \<^verbatim>\<open>new SetIterator(this, ...)\<close>) are one handle.
\<close>

datatype 'a SetIterator = Cell nat 'a | End

type_synonym 'a cell = "nat \<times> 'a"

record 'a std_List =
  cells :: "'a cell list"
  fresh :: nat

definition iterator_to :: "'a cell \<Rightarrow> 'a SetIterator" where
  "iterator_to d = Cell (fst d) (snd d)"

definition List_from :: "'a std_List \<Rightarrow> 'a SetIterator \<Rightarrow> 'a cell list" where
  \<comment> \<open>the cells from the iterator's cell to the end of the list, none for \<^verbatim>\<open>end()\<close>\<close>
  "List_from l it =
     (case it of End \<Rightarrow> [] | Cell i _ \<Rightarrow> dropWhile (\<lambda>d. fst d \<noteq> i) (cells l))"

definition SetIterator_value :: "'a SetIterator \<Rightarrow> 'a option" where
  \<comment> \<open>\<^verbatim>\<open>it.value\<close>; \<^verbatim>\<open>end()\<close> holds no value (\<open>None\<close>: \<^verbatim>\<open>undefined\<close>)\<close>
  "SetIterator_value it = (case it of End \<Rightarrow> None | Cell _ v \<Rightarrow> Some v)"

definition SetIterator_next :: "'a std_List \<Rightarrow> 'a SetIterator \<Rightarrow> 'a SetIterator" where
  \<comment> \<open>\<^verbatim>\<open>it.next()\<close> in the list \<open>l\<close>; the spec lets \<^verbatim>\<open>next()\<close> on \<^verbatim>\<open>end()\<close> return \<^verbatim>\<open>end()\<close>\<close>
  "SetIterator_next l it =
     (case List_from l it of [] \<Rightarrow> End | [_] \<Rightarrow> End | _ # d # _ \<Rightarrow> iterator_to d)"

definition SetIterator_equal_to :: "'a SetIterator \<Rightarrow> 'a SetIterator \<Rightarrow> bool" where
  "SetIterator_equal_to x y = (x = y)"

definition List_insert :: "'a std_List \<Rightarrow> 'a SetIterator \<Rightarrow> 'a \<Rightarrow> 'a SetIterator \<times> 'a std_List" where
  \<comment> \<open>\<^verbatim>\<open>data_.insert(position, val)\<close>: a new cell immediately before \<open>position\<close>\<close>
  "List_insert l position val =
     (let c = (fresh l, val) in
      (iterator_to c,
       \<lparr>cells = (case position of
                   End \<Rightarrow> cells l @ [c]
                 | Cell i _ \<Rightarrow> takeWhile (\<lambda>d. fst d \<noteq> i) (cells l) @ c # dropWhile (\<lambda>d. fst d \<noteq> i) (cells l)),
        fresh = Suc (fresh l)\<rparr>))"

definition List_erase :: "'a std_List \<Rightarrow> 'a SetIterator \<Rightarrow> 'a SetIterator \<Rightarrow> 'a SetIterator \<times> 'a std_List" where
  \<comment> \<open>\<^verbatim>\<open>data_.erase(first, last)\<close>: the cells from \<open>first\<close> up to, not including, \<open>last\<close>
      leave the list\<close>
  "List_erase l first last' =
     (last',
      l\<lparr>cells := takeWhile (\<lambda>d. iterator_to d \<noteq> first) (cells l)
                 @ dropWhile (\<lambda>d. iterator_to d \<noteq> last') (dropWhile (\<lambda>d. iterator_to d \<noteq> first) (cells l))\<rparr>)"

section \<open>The tree index (base/AtomicTree.ts, base/XTree.ts: not under src/)\<close>

text \<open>
  Modelled from the spec: \<^verbatim>\<open>base.AtomicTree\<close>, the red-black tree index \<^verbatim>\<open>tree_\<close> of a
  tree set, whose file is not among the sources. The spec (section 4.3) gives each
  operation by the order of the keys alone:
  \<^item> \<^verbatim>\<open>find(k)\<close>: node with smallest key \<open>\<ge> k\<close>, or null if \<open>k\<close> exceeds max;
  \<^item> \<^verbatim>\<open>lower_bound(k)\<close>: iterator to smallest key not less than \<open>k\<close>;
  \<^item> \<^verbatim>\<open>upper_bound(k)\<close>: iterator to smallest key strictly greater;
  \<^item> \<^verbatim>\<open>equal_range(k)\<close>: \<open>(lower_bound(k), upper_bound(k))\<close>;
  \<^item> \<^verbatim>\<open>insert(it)\<close>: link a new node for an already placed cell;
  \<^item> \<^verbatim>\<open>erase(it)\<close>: unlink the node of that cell.
  The tree is therefore held as its in-order sequence of payloads (the cells its nodes
  point to), ordered by the comparator it was built with; colours and shape decide no
  result. A node for a new cell is linked after the nodes whose keys are not greater.
\<close>

record 'a AtomicTree =
  nodes :: "'a cell list"
  compare' :: "'a \<Rightarrow> 'a \<Rightarrow> bool"

definition tree_find :: "'a AtomicTree \<Rightarrow> 'a \<Rightarrow> 'a cell option" where
  "tree_find t val = List.find (\<lambda>d. \<not> compare' t (snd d) val) (nodes t)"

definition tree_lower_bound :: "'a AtomicTree \<Rightarrow> 'a \<Rightarrow> 'a SetIterator" where
  "tree_lower_bound t val =
     (case List.find (\<lambda>d. \<not> compare' t (snd d) val) (nodes t) of
        None \<Rightarrow> End | Some d \<Rightarrow> iterator_to d)"

definition tree_upper_bound :: "'a AtomicTree \<Rightarrow> 'a \<Rightarrow> 'a SetIterator" where
  "tree_upper_bound t val =
     (case List.find (\<lambda>d. compare' t val (snd d)) (nodes t) of
        None \<Rightarrow> End | Some d \<Rightarrow> iterator_to d)"

definition tree_equal_range :: "'a AtomicTree \<Rightarrow> 'a \<Rightarrow> 'a SetIterator \<times> 'a SetIterator" where
  "tree_equal_range t val = (tree_lower_bound t val, tree_upper_bound t val)"

definition tree_insert :: "'a AtomicTree \<Rightarrow> 'a SetIterator \<Rightarrow> 'a AtomicTree" where
  "tree_insert t it =
     (case it of
        End \<Rightarrow> t
      | Cell i v \<Rightarrow>
          t\<lparr>nodes := takeWhile (\<lambda>d. \<not> compare' t v (snd d)) (nodes t)
                      @ (i, v) # dropWhile (\<lambda>d. \<not> compare' t v (snd d)) (nodes t)\<rparr>)"

definition tree_erase :: "'a AtomicTree \<Rightarrow> 'a SetIterator \<Rightarrow> 'a AtomicTree" where
  "tree_erase t it =
     (case it of End \<Rightarrow> t | Cell i _ \<Rightarrow> t\<lparr>nodes := filter (\<lambda>d. fst d \<noteq> i) (nodes t)\<rparr>)"

definition tree_key_comp :: "'a AtomicTree \<Rightarrow> 'a \<Rightarrow> 'a \<Rightarrow> bool" where
  "tree_key_comp t = compare' t"

definition compare_values :: "('a \<Rightarrow> 'a \<Rightarrow> bool) \<Rightarrow> 'a option \<Rightarrow> 'a option \<Rightarrow> bool" where
  \<comment> \<open>a comparator applied to what \<^verbatim>\<open>it.value\<close> gave: a comparison with \<^verbatim>\<open>undefined\<close> (the
      value of \<^verbatim>\<open>end()\<close>) is false\<close>
  "compare_values compare x y =
     (case x of None \<Rightarrow> False | Some a \<Rightarrow> (case y of None \<Rightarrow> False | Some b \<Rightarrow> compare a b))"

section \<open>TreeSet (TreeSet.ts)\<close>

text \<open>The fields \<^verbatim>\<open>data_\<close> and \<^verbatim>\<open>tree_\<close> are written \<open>data'\<close> and \<open>tree'\<close>, the tree's \<^verbatim>\<open>compare_\<close> is \<open>compare'\<close>.\<close>

record 'a TreeSet =
  data' :: "'a std_List"
  tree' :: "'a AtomicTree"

definition TreeSet_new :: "('a \<Rightarrow> 'a \<Rightarrow> bool) \<Rightarrow> 'a TreeSet" where
  \<comment> \<open>\<^verbatim>\<open>new TreeSet<T>(compare)\<close>; the default constructor passes \<^verbatim>\<open>std.less\<close>\<close>
  "TreeSet_new compare = \<lparr>data' = \<lparr>cells = [], fresh = 0\<rparr>, tree' = \<lparr>nodes = [], compare' = compare\<rparr>\<rparr>"

definition TreeSet_end :: "'a TreeSet \<Rightarrow> 'a SetIterator" where
  "TreeSet_end s = End"

definition TreeSet_values :: "'a TreeSet \<Rightarrow> 'a list" where
  \<comment> \<open>forward iteration, \<^verbatim>\<open>begin()\<close> to \<^verbatim>\<open>end()\<close>: the values of the cells of \<^verbatim>\<open>data_\<close>\<close>
  "TreeSet_values s = map snd (cells (data' s))"

definition TreeSet_find :: "'a TreeSet \<Rightarrow> 'a \<Rightarrow> 'a SetIterator" where
  "TreeSet_find s val =
     (case tree_find (tree' s) val of
        None \<Rightarrow> TreeSet_end s
      | Some node \<Rightarrow>
          if std_equal_to (snd node) val = False then TreeSet_end s else iterator_to node)"

definition TreeSet_lower_bound :: "'a TreeSet \<Rightarrow> 'a \<Rightarrow> 'a SetIterator" where
  "TreeSet_lower_bound s val = tree_lower_bound (tree' s) val"

definition TreeSet_upper_bound :: "'a TreeSet \<Rightarrow> 'a \<Rightarrow> 'a SetIterator" where
  "TreeSet_upper_bound s val = tree_lower_bound (tree' s) val"

definition TreeSet_equal_range :: "'a TreeSet \<Rightarrow> 'a \<Rightarrow> 'a SetIterator \<times> 'a SetIterator" where
  "TreeSet_equal_range s val = tree_equal_range (tree' s) val"

definition TreeSet_handle_insert :: "'a TreeSet \<Rightarrow> 'a SetIterator \<Rightarrow> 'a SetIterator \<Rightarrow> 'a TreeSet" where
  "TreeSet_handle_insert s first last' = s\<lparr>tree' := tree_insert (tree' s) first\<rparr>"

definition TreeSet_insert_by_val :: "('a::linorder) TreeSet \<Rightarrow> 'a \<Rightarrow> ('a SetIterator \<times> bool) \<times> 'a TreeSet" where
  "TreeSet_insert_by_val s val =
     (let node = tree_find (tree' s) val in
      if node \<noteq> None \<and> std_equal_to (snd (the node)) val = True
      then ((iterator_to (the node), False), s)
      else
        (let it = (if node = None then TreeSet_end s
                   else if std_less (snd (the node)) val = True
                        then SetIterator_next (data' s) (iterator_to (the node))
                   else iterator_to (the node));
             (it', l') = List_insert (data' s) it val;
             s' = TreeSet_handle_insert (s\<lparr>data' := l'\<rparr>) it' (SetIterator_next l' it')
         in ((it', True), s')))"

text \<open>
  Modelled from the spec: \<^verbatim>\<open>has(val)\<close> of \<^verbatim>\<open>base.SetContainer\<close>, which is not among the
  sources; the spec's lookup operations are \<^verbatim>\<open>find(k)\<close> and \<^verbatim>\<open>count(k)\<close>, and a value
  is held when \<^verbatim>\<open>find\<close> does not give \<^verbatim>\<open>end()\<close>.
\<close>

definition TreeSet_has :: "'a TreeSet \<Rightarrow> 'a \<Rightarrow> bool" where
  "TreeSet_has s val = (\<not> SetIterator_equal_to (TreeSet_find s val) (TreeSet_end s))"

definition TreeSet_insert_by_hint :: "('a::linorder) TreeSet \<Rightarrow> 'a SetIterator \<Rightarrow> 'a \<Rightarrow> 'a SetIterator \<times> 'a TreeSet" where
  "TreeSet_insert_by_hint s hint val =
     (if TreeSet_has s val = True then (TreeSet_end s, s)
      else
        (let compare = tree_key_comp (tree' s) in
         if compare_values compare (SetIterator_value hint) (Some val) = True
            \<and> (SetIterator_equal_to (SetIterator_next (data' s) hint) (TreeSet_end s)
                \<or> compare_values compare (Some val) (SetIterator_value (SetIterator_next (data' s) hint)) = True)
         then
           (let (ret, l') = List_insert (data' s) hint val;
                s' = TreeSet_handle_insert (s\<lparr>data' := l'\<rparr>) ret (SetIterator_next l' ret)
            in (ret, s'))
         else
           (let (r, s') = TreeSet_insert_by_val s val in (fst r, s'))))"

text \<open>
  \<^verbatim>\<open>insert_by_range(first, last)\<close> walks a range of another container and calls
  \<^verbatim>\<open>insert_by_val(first.value)\<close> on each step; the range is given as the values it
  visits, in order.
\<close>

definition TreeSet_insert_by_range :: "('a::linorder) TreeSet \<Rightarrow> 'a list \<Rightarrow> 'a TreeSet" where
  "TreeSet_insert_by_range s vals = foldl (\<lambda>s' v. snd (TreeSet_insert_by_val s' v)) s vals"

text \<open>
  \<^verbatim>\<open>handle_erase(first, last)\<close>:
  \<^verbatim>\<open>for (; !first.equal_to(last); first = first.next()) this.tree_.erase(last);\<close>
  The walk reads the links of the list \<open>l\<close>. It does not end when \<open>first\<close> reaches
  \<^verbatim>\<open>end()\<close> before \<open>last\<close>; not returning is the value \<open>None\<close>.
\<close>

partial_function (option) TreeSet_handle_erase ::
  "'a std_List \<Rightarrow> 'a AtomicTree \<Rightarrow> 'a SetIterator \<Rightarrow> 'a SetIterator \<Rightarrow> 'a AtomicTree option" where
  "TreeSet_handle_erase l t first last' =
     (if SetIterator_equal_to first last' then Some t
      else TreeSet_handle_erase l (tree_erase t last') (SetIterator_next l first) last')"

text \<open>
  Modelled from the spec: \<^verbatim>\<open>erase(first, last)\<close> of \<^verbatim>\<open>base.SetContainer\<close>, which is not
  among the sources. The spec (section 2): a write "(1) mutates the intrusive list
  producing a stable node handle, (2) calls a post-process hook that updates the
  index"; the hook is \<^verbatim>\<open>handle_erase\<close> above. The erased cells keep their links, which
  the hook's walk follows: the links of the list before the call.
\<close>

definition TreeSet_erase :: "'a TreeSet \<Rightarrow> 'a SetIterator \<Rightarrow> 'a SetIterator \<Rightarrow> ('a SetIterator \<times> 'a TreeSet) option" where
  "TreeSet_erase s first last' =
     (let (ret, l') = List_erase (data' s) first last' in
      case TreeSet_handle_erase (data' s) (tree' s) first last' of
        None \<Rightarrow> None
      | Some t' \<Rightarrow> Some (ret, \<lparr>data' = l', tree' = t'\<rparr>))"

definition TreeSet_swap_tree_set :: "'a TreeSet \<Rightarrow> 'a TreeSet \<Rightarrow> 'a TreeSet \<times> 'a TreeSet" where
  \<comment> \<open>the pair (\<open>this\<close>, \<open>obj\<close>) after the two destructuring assignments\<close>
  "TreeSet_swap_tree_set this obj =
     (this\<lparr>data' := data' obj, tree' := tree' obj\<rparr>, obj\<lparr>data' := data' this, tree' := tree' this\<rparr>)"

definition TreeSet_swap :: "'a TreeSet \<Rightarrow> 'a TreeSet \<Rightarrow> 'a TreeSet \<times> 'a TreeSet" where
  \<comment> \<open>\<^verbatim>\<open>swap(obj)\<close> for an \<open>obj\<close> that is a TreeSet: the \<^verbatim>\<open>instanceof\<close> branch\<close>
  "TreeSet_swap this obj = TreeSet_swap_tree_set this obj"

section \<open>TreeMultiSet (TreeMultiSet.ts)\<close>

text \<open>A TreeMultiSet has the fields of a TreeSet: \<^verbatim>\<open>data_\<close> and \<^verbatim>\<open>tree_\<close>.\<close>

type_synonym 'a TreeMultiSet = "'a TreeSet"

definition TreeMultiSet_find :: "'a TreeMultiSet \<Rightarrow> 'a \<Rightarrow> 'a SetIterator" where
  "TreeMultiSet_find s val =
     (case tree_find (tree' s) val of
        None \<Rightarrow> TreeSet_end s
      | Some node \<Rightarrow>
          if std_equal_to val (snd node) = False then TreeSet_end s else iterator_to node)"

text \<open>
  The loop of \<^verbatim>\<open>count\<close> walks the list from the found cell while the values are
  \<^verbatim>\<open>equal_to\<close> \<open>val\<close>; its argument is the rest of the list from the iterator on.
\<close>

fun count_loop :: "'a \<Rightarrow> 'a cell list \<Rightarrow> nat \<Rightarrow> nat" where
  "count_loop val [] cnt = cnt"
| "count_loop val (d # ds) cnt = (if std_equal_to (snd d) val then count_loop val ds (Suc cnt) else cnt)"

definition TreeMultiSet_count :: "'a TreeMultiSet \<Rightarrow> 'a \<Rightarrow> nat" where
  "TreeMultiSet_count s val =
     (let it = TreeMultiSet_find s val in count_loop val (List_from (data' s) it) 0)"

definition TreeMultiSet_lower_bound :: "'a TreeMultiSet \<Rightarrow> 'a \<Rightarrow> 'a SetIterator" where
  "TreeMultiSet_lower_bound s val = tree_lower_bound (tree' s) val"

definition TreeMultiSet_upper_bound :: "'a TreeMultiSet \<Rightarrow> 'a \<Rightarrow> 'a SetIterator" where
  "TreeMultiSet_upper_bound s val = tree_upper_bound (tree' s) val"

definition TreeMultiSet_equal_range :: "'a TreeMultiSet \<Rightarrow> 'a \<Rightarrow> 'a SetIterator \<times> 'a SetIterator" where
  "TreeMultiSet_equal_range s val = tree_equal_range (tree' s) val"

text \<open>
  The loop of \<^verbatim>\<open>insert_by_val\<close>,
  \<^verbatim>\<open>while (it.equal_to(this.end()) == false && std.less(it.value, val)) it = it.next();\<close>,
  over the rest of the list from \<open>it\<close> on.
\<close>

fun skip_less :: "('a::linorder) \<Rightarrow> 'a cell list \<Rightarrow> 'a SetIterator" where
  "skip_less val [] = End"
| "skip_less val (d # ds) = (if std_less (snd d) val then skip_less val ds else iterator_to d)"

definition TreeMultiSet_insert_by_val :: "('a::linorder) TreeMultiSet \<Rightarrow> 'a \<Rightarrow> 'a SetIterator \<times> 'a TreeMultiSet" where
  "TreeMultiSet_insert_by_val s val =
     (let node = tree_find (tree' s) val;
          it = (if node = None then TreeSet_end s
                else if std_equal_to (snd (the node)) val = True
                     then SetIterator_next (data' s) (iterator_to (the node))
                else if std_less (snd (the node)) val = True
                     then skip_less val (List_from (data' s) (SetIterator_next (data' s) (iterator_to (the node))))
                else iterator_to (the node));
          (it', l') = List_insert (data' s) it val;
          s' = TreeSet_handle_insert (s\<lparr>data' := l'\<rparr>) it' (SetIterator_next l' it')
      in (it', s'))"

text \<open>
  In \<^verbatim>\<open>insert_by_hint\<close> the values \<^verbatim>\<open>std.equal_to\<close> receives are what \<^verbatim>\<open>it.value\<close> gave:
  \<open>None\<close> (\<^verbatim>\<open>undefined\<close>, of \<^verbatim>\<open>end()\<close>) equals no value.
\<close>

definition TreeMultiSet_insert_by_hint ::
  "('a::linorder) TreeMultiSet \<Rightarrow> 'a SetIterator \<Rightarrow> 'a \<Rightarrow> 'a SetIterator \<times> 'a TreeMultiSet" where
  "TreeMultiSet_insert_by_hint s hint val =
     (let compare = tree_key_comp (tree' s) in
      if (compare_values compare (SetIterator_value hint) (Some val)
            \<or> std_equal_to (SetIterator_value hint) (Some val))
         \<and> (SetIterator_equal_to (SetIterator_next (data' s) hint) (TreeSet_end s)
             \<or> (compare_values compare (Some val) (SetIterator_value (SetIterator_next (data' s) hint))
                 \<or> std_equal_to (Some val) (SetIterator_value (SetIterator_next (data' s) hint))))
      then
        (let (ret, l') = List_insert (data' s) hint val;
             s' = TreeSet_handle_insert (s\<lparr>data' := l'\<rparr>) ret (SetIterator_next l' ret)
         in (ret, s'))
      else TreeMultiSet_insert_by_val s val)"

definition TreeMultiSet_insert_by_range :: "('a::linorder) TreeMultiSet \<Rightarrow> 'a list \<Rightarrow> 'a TreeMultiSet" where
  "TreeMultiSet_insert_by_range s vals = foldl (\<lambda>s' v. snd (TreeMultiSet_insert_by_val s' v)) s vals"

text \<open>
  \<^verbatim>\<open>handle_insert\<close>, \<^verbatim>\<open>handle_erase\<close>, \<^verbatim>\<open>swap\<close> and \<^verbatim>\<open>swap_tree_set\<close> of TreeMultiSet.ts are,
  line by line, those of TreeSet.ts.
\<close>

definition TreeMultiSet_swap_tree_set :: "'a TreeMultiSet \<Rightarrow> 'a TreeMultiSet \<Rightarrow> 'a TreeMultiSet \<times> 'a TreeMultiSet" where
  "TreeMultiSet_swap_tree_set this obj =
     (this\<lparr>data' := data' obj, tree' := tree' obj\<rparr>, obj\<lparr>data' := data' this, tree' := tree' this\<rparr>)"

definition TreeMultiSet_swap :: "'a TreeMultiSet \<Rightarrow> 'a TreeMultiSet \<Rightarrow> 'a TreeMultiSet \<times> 'a TreeMultiSet" where
  \<comment> \<open>\<^verbatim>\<open>swap(obj)\<close> for an \<open>obj\<close> that is a TreeMultiSet\<close>
  "TreeMultiSet_swap this obj = TreeMultiSet_swap_tree_set this obj"


section \<open>The state of a tree set built by insertion by value\<close>

text \<open>
  What holds of a set built by the default constructor and \<^verbatim>\<open>insert_by_val\<close>: the tree
  orders by \<^verbatim>\<open>std.less\<close>, its in-order sequence is the element list, the values are
  strictly increasing, and the cells have distinct identities, all handed out already.
\<close>

definition TreeSet_inv :: "('a::linorder) TreeSet \<Rightarrow> bool" where
  "TreeSet_inv s =
     (compare' (tree' s) = std_less
      \<and> nodes (tree' s) = cells (data' s)
      \<and> sorted_wrt (<) (map snd (cells (data' s)))
      \<and> distinct (map fst (cells (data' s)))
      \<and> list_all (\<lambda>d. fst d < fresh (data' s)) (cells (data' s)))"

text \<open>
  What holds of a multiset built by the default constructor and \<^verbatim>\<open>insert_by_val\<close>: the
  tree orders by \<^verbatim>\<open>std.less\<close>, the values of the element list and of the tree's in-order
  sequence are non-decreasing, the cells have distinct identities, all handed out
  already, and for every key the tree search finds the cell that is first in the
  element list among those not less than the key.
\<close>

definition TreeMultiSet_inv :: "('a::linorder) TreeMultiSet \<Rightarrow> bool" where
  "TreeMultiSet_inv s =
     (compare' (tree' s) = std_less
      \<and> sorted (map snd (cells (data' s)))
      \<and> sorted (map snd (nodes (tree' s)))
      \<and> distinct (map fst (cells (data' s)))
      \<and> list_all (\<lambda>d. fst d < fresh (data' s)) (cells (data' s))
      \<and> (\<forall>w. List.find (\<lambda>d. \<not> snd d < w) (nodes (tree' s))
                = List.find (\<lambda>d. \<not> snd d < w) (cells (data' s))))"

section \<open>Vector: accessors and swap\<close>

lemma Vector_push_range_to_end:
  "Suc i \<le> length (elems src) \<Longrightarrow>
   Vector_push_range this src (int i) (-1) = Some (Inr (this\<lparr>elems := elems this @ drop i (elems src)\<rparr>))"
proof (induction "length (elems src) - i" arbitrary: i this)
  case 0
  then show ?case by simp
next
  case (Suc n)
  have nth: "VectorIterator_value src (int i) = Inr (elems src ! i)"
    using Suc.prems by (simp add: VectorIterator_value_def Vector_at_def Vector_size_def Array_get_def)
  show ?case
  proof (cases "Suc i = length (elems src)")
    case True
    then have nx: "VectorIterator_next src (int i) = -1"
      by (simp add: VectorIterator_next_def Vector_size_def Vector_end_def)
    have dr: "drop i (elems src) = [elems src ! i]"
      using True by (metis Cons_nth_drop_Suc drop_all lessI order_refl)
    show ?thesis
      apply (subst Vector_push_range.simps)
      apply (simp add: VectorIterator_equal_to_def nth nx)
      apply (subst Vector_push_range.simps)
      apply (simp add: VectorIterator_equal_to_def Array_push_def dr)
      done
  next
    case False
    then have lt: "Suc (Suc i) \<le> length (elems src)" using Suc.prems by simp
    then have nx: "VectorIterator_next src (int i) = int (Suc i)"
      by (simp add: VectorIterator_next_def Vector_size_def Vector_end_def)
    have n: "n = length (elems src) - Suc i" using Suc.hyps(2) by simp
    have dr: "drop i (elems src) = elems src ! i # drop (Suc i) (elems src)"
      using Suc.prems by (simp add: Cons_nth_drop_Suc)
    have "Vector_push_range this src (int i) (-1)
            = Vector_push_range (Array_push this (elems src ! i)) src (int (Suc i)) (-1)"
      by (subst Vector_push_range.simps) (simp add: VectorIterator_equal_to_def nth nx del: of_nat_Suc)
    also have "\<dots> = Some (Inr ((Array_push this (elems src ! i))
                 \<lparr>elems := elems (Array_push this (elems src ! i)) @ drop (Suc i) (elems src)\<rparr>))"
      by (rule Suc.hyps(1)[OF n lt])
    also have "\<dots> = Some (Inr (this\<lparr>elems := elems this @ drop i (elems src)\<rparr>))"
      by (simp add: Array_push_def dr)
    finally show ?thesis .
  qed
qed

lemma Vector_push_range_empty: "Vector_push_range this src (-1) (-1) = Some (Inr this)"
  by (subst Vector_push_range.simps) (simp add: VectorIterator_equal_to_def)

text \<open>
  Walking a vector from \<^verbatim>\<open>begin()\<close> to \<^verbatim>\<open>end()\<close> ends and visits its elements in index
  order: forward iteration yields \<open>elems\<close>.
\<close>

lemma Vector_push_range_all:
  "Vector_push_range this src (Vector_begin src) (-1)
     = Some (Inr (this\<lparr>elems := elems this @ elems src\<rparr>))"
proof (cases "elems src = []")
  case True
  then show ?thesis
    by (simp add: Vector_begin_def Vector_end_def Vector_empty_def Vector_size_def
        Vector_push_range_empty)
next
  case False
  then have "Suc 0 \<le> length (elems src)" by (cases "elems src") simp_all
  from Vector_push_range_to_end[OF this, of this] False show ?thesis
    by (simp add: Vector_begin_def Vector_end_def Vector_empty_def Vector_size_def)
qed

lemma Vector_clear_elems: "Vector_clear v = v\<lparr>elems := []\<rparr>"
  by (cases "elems v = []")
     (simp_all add: Vector_clear_def Vector_erase_def Vector_erase_by_range_def Vector_begin_def
        Vector_end_def Vector_empty_def Vector_size_def Array_splice_def)

lemma Vector_assign_all:
  "Vector_assign this src (Vector_begin src) (Vector_end src) = Some (Inr (this\<lparr>elems := elems src\<rparr>))"
  by (simp add: Vector_assign_def Vector_insert_def Vector_insert_by_range_def Vector_clear_elems
       Vector_end_def Vector_push_range_all)

lemma Vector_forward_elems: "Vector_forward v = Some (Inr (elems v))"
  by (simp add: Vector_forward_def Vector_end_def Vector_push_range_all)

text \<open>
  What the guard \<^verbatim>\<open>index < this.size()\<close> of \<^verbatim>\<open>at\<close> gives: \<^verbatim>\<open>at(i)\<close> throws the out-of-range
  error exactly when \<open>i \<ge> size()\<close> and returns the element at \<open>i\<close> when
  \<open>0 \<le> i < size()\<close>; \<^verbatim>\<open>front()\<close> throws exactly when the vector is empty. \<^verbatim>\<open>at\<close>, \<^verbatim>\<open>front\<close>
  and \<^verbatim>\<open>back\<close> assign nothing: they are functions of the vector and return no new one.
\<close>

lemma Vector_at_guard:
  "(Vector_at v i = Inl OutOfRange) = (Vector_size v \<le> i)"
  "0 \<le> i \<Longrightarrow> i < Vector_size v \<Longrightarrow> Vector_at v i = Inr (elems v ! nat i)"
  "(Vector_front v = Inl OutOfRange) = Vector_empty v"
  by (auto simp add: Vector_at_def Vector_front_def Vector_size_def Vector_empty_def Array_get_def)

text \<open>
  C8. \<^verbatim>\<open>at(i)\<close> is to fail with the out-of-range error for every \<open>i\<close> that is no element's
  index, and \<^verbatim>\<open>front()\<close> and \<^verbatim>\<open>back()\<close> whenever the vector is empty. The guard of \<^verbatim>\<open>at\<close>
  has no lower bound: on an empty vector \<^verbatim>\<open>back()\<close> is \<^verbatim>\<open>at(-1)\<close>, \<open>-1 < 0\<close> passes the
  guard, and the call returns \<^verbatim>\<open>this[-1]\<close> (\<^verbatim>\<open>undefined\<close>) and throws nothing, while
  \<^verbatim>\<open>front()\<close> on the same vector throws.
\<close>

theorem Vector_back_empty_returns:
  "Vector_empty \<lparr>elems = ([] :: nat option list), props = (\<lambda>_. None)\<rparr>
   \<and> Vector_back \<lparr>elems = ([] :: nat option list), props = (\<lambda>_. None)\<rparr> = Inr None
   \<and> Vector_at \<lparr>elems = ([] :: nat option list), props = (\<lambda>_. None)\<rparr> (-1) = Inr None
   \<and> Vector_front \<lparr>elems = ([] :: nat option list), props = (\<lambda>_. None)\<rparr> = Inl OutOfRange"
  by (simp add: Vector_back_def Vector_front_def Vector_at_def Vector_size_def Vector_empty_def
        Array_get_def)

text \<open>
  C10 (as amended). For either target: \<^verbatim>\<open>set(i, x)\<close> fails with the out-of-range error
  exactly when \<open>i > size()\<close>, and then changes nothing. Otherwise it returns the value
  \<^verbatim>\<open>this[i]\<close> had and afterwards \<^verbatim>\<open>this[i]\<close> is \<open>x\<close>; at an element's index the size stays.
  So the boundary call \<^verbatim>\<open>set(size(), x)\<close> does not fail, and it returns \<^verbatim>\<open>undefined\<close>
  (\<open>None\<close>) when nothing was stored at that index before. Whether it grows the vector
  is the target's: the size grows by one where the instance is an Array exotic object
  (ES6) and stays where it is an ordinary object (ES5).
\<close>

theorem Vector_set_fails_iff_past_size:
  "(fst (Vector_set tgt v i x) = Inl OutOfRange) = (i > Vector_size v)
   \<and> (i > Vector_size v \<longrightarrow> snd (Vector_set tgt v i x) = v)
   \<and> (i \<le> Vector_size v \<longrightarrow>
        fst (Vector_set tgt v i x) = Inr (Array_get v i)
        \<and> Array_get (snd (Vector_set tgt v i x)) i = x)
   \<and> (0 \<le> i \<and> i < Vector_size v \<longrightarrow>
        Vector_size (snd (Vector_set tgt v i x)) = Vector_size v)
   \<and> (props v (Vector_size v) = None \<longrightarrow>
        fst (Vector_set tgt v (Vector_size v) x) = Inr None)
   \<and> Vector_size (snd (Vector_set ES6 v (Vector_size v) x)) = Vector_size v + 1
   \<and> Vector_size (snd (Vector_set ES5 v (Vector_size v) x)) = Vector_size v"
proof -
  have fails: "(fst (Vector_set tgt v i x) = Inl OutOfRange) = (i > Vector_size v)"
    by (simp add: Vector_set_def Let_def)
  have same: "i > Vector_size v \<longrightarrow> snd (Vector_set tgt v i x) = v"
    by (simp add: Vector_set_def)
  have prev: "i \<le> Vector_size v \<longrightarrow> fst (Vector_set tgt v i x) = Inr (Array_get v i)"
    by (simp add: Vector_set_def Let_def)
  have stored: "i \<le> Vector_size v \<longrightarrow> Array_get (snd (Vector_set tgt v i x)) i = x"
    by (cases tgt)
      (auto simp add: Vector_set_def Vector_size_def Array_get_def Array_put_def Let_def nth_append)
  have inside: "0 \<le> i \<and> i < Vector_size v \<longrightarrow>
      Vector_size (snd (Vector_set tgt v i x)) = Vector_size v"
    by (simp add: Vector_set_def Vector_size_def Array_put_def Let_def)
  have fresh: "props v (Vector_size v) = None \<longrightarrow>
      fst (Vector_set tgt v (Vector_size v) x) = Inr None"
    by (simp add: Vector_set_def Vector_size_def Array_get_def Let_def)
  have grows: "Vector_size (snd (Vector_set ES6 v (Vector_size v) x)) = Vector_size v + 1"
    by (simp add: Vector_set_def Vector_size_def Array_put_def Let_def)
  have stays: "Vector_size (snd (Vector_set ES5 v (Vector_size v) x)) = Vector_size v"
    by (simp add: Vector_set_def Vector_size_def Array_put_def Let_def)
  from fails same prev stored inside fresh grows stays show ?thesis
    by blast
qed

text \<open>The vector \<open>[1, 2]\<close>: \<^verbatim>\<open>set(3, 9)\<close> throws, \<^verbatim>\<open>set(2, 9)\<close> and \<^verbatim>\<open>set(0, 9)\<close> return.\<close>

theorem Vector_set_fails_iff_past_size_witness:
  "fst (Vector_set ES5 \<lparr>elems = [Some (1::nat), Some 2], props = (\<lambda>_. None)\<rparr> 3 (Some 9)) = Inl OutOfRange
   \<and> snd (Vector_set ES5 \<lparr>elems = [Some (1::nat), Some 2], props = (\<lambda>_. None)\<rparr> 3 (Some 9))
       = \<lparr>elems = [Some 1, Some 2], props = (\<lambda>_. None)\<rparr>
   \<and> fst (Vector_set ES5 \<lparr>elems = [Some (1::nat), Some 2], props = (\<lambda>_. None)\<rparr> 2 (Some 9)) = Inr None
   \<and> Array_get (snd (Vector_set ES5 \<lparr>elems = [Some (1::nat), Some 2], props = (\<lambda>_. None)\<rparr> 2 (Some 9))) 2
       = Some 9
   \<and> fst (Vector_set ES6 \<lparr>elems = [Some (1::nat), Some 2], props = (\<lambda>_. None)\<rparr> 0 (Some 9)) = Inr (Some 1)
   \<and> Vector_size (snd (Vector_set ES6 \<lparr>elems = [Some (1::nat), Some 2], props = (\<lambda>_. None)\<rparr> 0 (Some 9))) = 2"
  using Vector_set_fails_iff_past_size[of ES5 "\<lparr>elems = [Some (1::nat), Some 2], props = (\<lambda>_. None)\<rparr>" 3 "Some 9"]
        Vector_set_fails_iff_past_size[of ES5 "\<lparr>elems = [Some (1::nat), Some 2], props = (\<lambda>_. None)\<rparr>" 2 "Some 9"]
        Vector_set_fails_iff_past_size[of ES6 "\<lparr>elems = [Some (1::nat), Some 2], props = (\<lambda>_. None)\<rparr>" 0 "Some 9"]
  by (simp add: Vector_size_def Array_get_def)

text \<open>
  C10 as stated fails where the instance is an ordinary object (ES5): on the vector
  \<open>[1, 2]\<close> the call \<^verbatim>\<open>set(2, 9)\<close> returns \<^verbatim>\<open>undefined\<close> and makes the property \<open>2\<close>, the
  size is still \<open>2\<close> and \<^verbatim>\<open>at(2)\<close> still throws. Where the instance is an Array exotic
  object (ES6) the same call makes the vector \<open>[1, 2, 9]\<close>.
\<close>

theorem Vector_set_at_size_keeps_size:
  "Vector_set ES5 \<lparr>elems = [Some (1::nat), Some 2], props = (\<lambda>_. None)\<rparr> 2 (Some 9)
     = (Inr None, \<lparr>elems = [Some 1, Some 2], props = (\<lambda>_. None)(2 := Some 9)\<rparr>)
   \<and> Vector_size (snd (Vector_set ES5 \<lparr>elems = [Some (1::nat), Some 2], props = (\<lambda>_. None)\<rparr> 2 (Some 9))) = 2
   \<and> Vector_at (snd (Vector_set ES5 \<lparr>elems = [Some (1::nat), Some 2], props = (\<lambda>_. None)\<rparr> 2 (Some 9))) 2
       = Inl OutOfRange
   \<and> Vector_set ES6 \<lparr>elems = [Some (1::nat), Some 2], props = (\<lambda>_. None)\<rparr> 2 (Some 9)
     = (Inr None, \<lparr>elems = [Some 1, Some 2, Some 9], props = (\<lambda>_. None)\<rparr>)"
  by (simp add: Vector_set_def Vector_size_def Vector_at_def Array_get_def Array_put_def Let_def)

text \<open>
  C9. \<^verbatim>\<open>A.swap(B)\<close> for two vectors returns, and afterwards forward iteration of \<open>A\<close>
  yields the elements \<open>B\<close> held and forward iteration of \<open>B\<close> those \<open>A\<close> held, in order.
  For two tree sets, unique or multi, the element list and the tree index, which
  holds the comparator, change sides, so each set iterates what the other held and
  orders by the other's comparator.
\<close>

theorem swap_exchanges_contents:
  "Vector_swap a b = Some (Inr (a\<lparr>elems := elems b\<rparr>, b\<lparr>elems := elems a\<rparr>))
   \<and> Vector_forward (a\<lparr>elems := elems b\<rparr>) = Vector_forward b
   \<and> Vector_forward (b\<lparr>elems := elems a\<rparr>) = Vector_forward a
   \<and> Vector_forward a = Some (Inr (elems a))
   \<and> Vector_forward b = Some (Inr (elems b))
   \<and> TreeSet_swap s t = (t, s)
   \<and> TreeMultiSet_swap s t = (t, s)
   \<and> TreeSet_values (fst (TreeSet_swap s t)) = TreeSet_values t
   \<and> TreeSet_values (snd (TreeSet_swap s t)) = TreeSet_values s
   \<and> tree_key_comp (tree' (fst (TreeSet_swap s t))) = tree_key_comp (tree' t)
   \<and> tree_key_comp (tree' (snd (TreeSet_swap s t))) = tree_key_comp (tree' s)"
  by (simp add: Vector_swap_def Vector_from_range_def Vector_assign_all Vector_forward_elems
        TreeSet_swap_def TreeSet_swap_tree_set_def TreeSet_values_def
        TreeMultiSet_swap_def TreeMultiSet_swap_tree_set_def)

text \<open>The spec's scenario E5: \<open>A = [1,2,3]\<close>, \<open>B = [10,20]\<close>.\<close>

theorem swap_exchanges_contents_witness:
  "Vector_swap \<lparr>elems = [Some (1::nat), Some 2, Some 3], props = (\<lambda>_. None)\<rparr>
               \<lparr>elems = [Some 10, Some 20], props = (\<lambda>_. None)\<rparr>
     = Some (Inr (\<lparr>elems = [Some 10, Some 20], props = (\<lambda>_. None)\<rparr>,
                  \<lparr>elems = [Some 1, Some 2, Some 3], props = (\<lambda>_. None)\<rparr>))
   \<and> TreeSet_swap (TreeSet_new (std_less :: nat \<Rightarrow> nat \<Rightarrow> bool)) (TreeSet_new (\<lambda>x y. y < x))
     = (TreeSet_new (\<lambda>x y. y < x), TreeSet_new std_less)"
  using swap_exchanges_contents[of "\<lparr>elems = [Some (1::nat), Some 2, Some 3], props = (\<lambda>_. None)\<rparr>"
          "\<lparr>elems = [Some 10, Some 20], props = (\<lambda>_. None)\<rparr>"
          "TreeSet_new (std_less :: nat \<Rightarrow> nat \<Rightarrow> bool)" "TreeSet_new (\<lambda>x y. y < x)"]
  by simp

section \<open>TreeSet: insertion by value under the default comparator\<close>

lemma insort_takeWhile_dropWhile:
  "insort v xs = takeWhile (\<lambda>x. x < v) xs @ v # dropWhile (\<lambda>x. x < v) xs"
  by (induction xs) auto

lemma split_at_cell:
  assumes "distinct (map fst cs)" and "dropWhile P cs = d # rest"
  shows "takeWhile (\<lambda>e. fst e \<noteq> fst d) cs = takeWhile P cs"
    and "dropWhile (\<lambda>e. fst e \<noteq> fst d) cs = d # rest"
proof -
  have cs: "cs = takeWhile P cs @ d # rest"
    using assms(2) by (metis takeWhile_dropWhile_id)
  have "distinct (map fst (takeWhile P cs @ d # rest))"
    using assms(1) cs by simp
  then have ne: "\<forall>e \<in> set (takeWhile P cs). fst e \<noteq> fst d"
    by (auto simp: image_iff)
  show "takeWhile (\<lambda>e. fst e \<noteq> fst d) cs = takeWhile P cs"
    by (subst cs) (simp add: ne)
  show "dropWhile (\<lambda>e. fst e \<noteq> fst d) cs = d # rest"
    by (subst cs) (simp add: ne)
qed

lemma below_prefix:
  fixes v :: "'a::linorder"
  assumes "sorted_wrt (<) (map snd cs)" and "v \<notin> snd ` set cs"
  shows "takeWhile (\<lambda>d. \<not> v < snd d) cs = takeWhile (\<lambda>d. snd d < v) cs"
    and "dropWhile (\<lambda>d. \<not> v < snd d) cs = dropWhile (\<lambda>d. snd d < v) cs"
proof -
  have "\<forall>d \<in> set cs. (\<not> v < snd d) = (snd d < v)"
    using assms(2) by (metis image_eqI not_less_iff_gr_or_eq)
  then show "takeWhile (\<lambda>d. \<not> v < snd d) cs = takeWhile (\<lambda>d. snd d < v) cs"
    and "dropWhile (\<lambda>d. \<not> v < snd d) cs = dropWhile (\<lambda>d. snd d < v) cs"
    by (auto intro: takeWhile_cong dropWhile_cong)
qed

lemma first_not_below:
  fixes v :: "'a::linorder"
  assumes "sorted_wrt (<) (map snd cs)" and "dropWhile (\<lambda>d. snd d < v) cs = d # rest"
  shows "(v \<in> snd ` set cs) = (snd d = v)"
proof -
  have cs: "cs = takeWhile (\<lambda>d. snd d < v) cs @ d # rest"
    using assms(2) by (metis takeWhile_dropWhile_id)
  have nd: "\<not> snd d < v"
    using assms(2) by (metis dropWhile_eq_Cons_conv)
  have pre: "\<forall>e \<in> set (takeWhile (\<lambda>d. snd d < v) cs). snd e < v"
    by (metis set_takeWhileD)
  have "sorted_wrt (<) (map snd (takeWhile (\<lambda>d. snd d < v) cs @ d # rest))"
    using assms(1) cs by simp
  then have post: "\<forall>e \<in> set rest. snd d < snd e"
    by (simp add: sorted_wrt_append)
  have "snd ` set cs = snd ` set (takeWhile (\<lambda>d. snd d < v) cs) \<union> {snd d} \<union> snd ` set rest"
    by (subst cs) auto
  then show ?thesis
    using pre post nd by (auto simp: image_iff) 
qed

lemma all_below:
  fixes v :: "'a::linorder"
  assumes "dropWhile (\<lambda>d. snd d < v) cs = []"
  shows "v \<notin> snd ` set cs" and "takeWhile (\<lambda>d. snd d < v) cs = cs"
proof -
  have a: "\<forall>d \<in> set cs. snd d < v" using assms by (simp add: dropWhile_eq_Nil_conv)
  then show "v \<notin> snd ` set cs" by auto
  from a show "takeWhile (\<lambda>d. snd d < v) cs = cs" by simp
qed

lemma tree_find_default:
  assumes "TreeSet_inv s"
  shows "tree_find (tree' s) v =
     (case dropWhile (\<lambda>d. snd d < v) (cells (data' s)) of [] \<Rightarrow> None | d # _ \<Rightarrow> Some d)"
proof -
  have "(Not \<circ> (\<lambda>d. \<not> snd d < v)) = (\<lambda>d :: nat \<times> 'a. snd d < v)" by auto
  then show ?thesis
    using assms by (simp add: tree_find_def TreeSet_inv_def std_less_def find_dropWhile)
qed


lemma TreeSet_insert_by_val_present:
  assumes "TreeSet_inv s" and "v \<in> set (TreeSet_values s)"
  shows "\<exists>i. (i, v) \<in> set (cells (data' s)) \<and> TreeSet_insert_by_val s v = ((Cell i v, False), s)"
proof -
  let ?cs = "cells (data' s)"
  have mem: "v \<in> snd ` set ?cs" using assms(2) by (simp add: TreeSet_values_def)
  have srt: "sorted_wrt (<) (map snd ?cs)" using assms(1) by (simp add: TreeSet_inv_def)
  obtain d rest where dw: "dropWhile (\<lambda>d. snd d < v) ?cs = d # rest"
    using all_below(1)[of v ?cs] mem by (cases "dropWhile (\<lambda>d. snd d < v) ?cs") auto
  have eq: "snd d = v" using first_not_below[OF srt dw] mem by simp
  have "d \<in> set ?cs" using dw by (metis list.set_intros(1) set_dropWhileD)
  then have in_cells: "(fst d, v) \<in> set ?cs" using eq by (metis prod.collapse)
  have "tree_find (tree' s) v = Some d"
    using tree_find_default[OF assms(1), of v] dw by simp
  then have "TreeSet_insert_by_val s v = ((Cell (fst d) v, False), s)"
    using eq by (simp add: TreeSet_insert_by_val_def std_equal_to_def iterator_to_def)
  with in_cells show ?thesis by blast
qed

lemma TreeSet_insert_by_val_absent:
  assumes "TreeSet_inv s" and "v \<notin> set (TreeSet_values s)"
  shows "TreeSet_insert_by_val s v =
      ((Cell (fresh (data' s)) v, True),
       \<lparr>data' = \<lparr>cells = takeWhile (\<lambda>d. snd d < v) (cells (data' s)) @ (fresh (data' s), v)
                           # dropWhile (\<lambda>d. snd d < v) (cells (data' s)),
                 fresh = Suc (fresh (data' s))\<rparr>,
        tree' = \<lparr>nodes = takeWhile (\<lambda>d. snd d < v) (cells (data' s)) @ (fresh (data' s), v)
                           # dropWhile (\<lambda>d. snd d < v) (cells (data' s)),
                 compare' = std_less\<rparr>\<rparr>)"
proof -
  let ?cs = "cells (data' s)"
  let ?P = "\<lambda>d :: nat \<times> 'a. snd d < v"
  let ?new = "takeWhile ?P ?cs @ (fresh (data' s), v) # dropWhile ?P ?cs"
  have nmem: "v \<notin> snd ` set ?cs" using assms(2) by (simp add: TreeSet_values_def)
  have srt: "sorted_wrt (<) (map snd ?cs)" using assms(1) by (simp add: TreeSet_inv_def)
  have dst: "distinct (map fst ?cs)" using assms(1) by (simp add: TreeSet_inv_def)
  have cmp: "compare' (tree' s) = std_less" using assms(1) by (simp add: TreeSet_inv_def)
  have nds: "nodes (tree' s) = ?cs" using assms(1) by (simp add: TreeSet_inv_def)
  note bp = below_prefix[OF srt nmem]
  have ti: "tree_insert (tree' s) (Cell (fresh (data' s)) v) = \<lparr>nodes = ?new, compare' = std_less\<rparr>"
    using bp by (cases "tree' s") (use cmp nds in \<open>simp add: tree_insert_def std_less_def\<close>)
  have rec: "\<And>l t. s\<lparr>data' := l, tree' := t\<rparr> = \<lparr>data' = l, tree' = t\<rparr>"
    by (cases s) simp
  show ?thesis
  proof (cases "dropWhile ?P ?cs")
    case Nil
    have tf: "tree_find (tree' s) v = None"
      using tree_find_default[OF assms(1), of v] Nil by simp
    have li: "List_insert (data' s) End v = (Cell (fresh (data' s)) v, \<lparr>cells = ?new, fresh = Suc (fresh (data' s))\<rparr>)"
      by (simp add: List_insert_def iterator_to_def Nil all_below(2)[OF Nil])
    show ?thesis
      by (simp add: TreeSet_insert_by_val_def tf TreeSet_end_def li TreeSet_handle_insert_def ti rec)
  next
    case (Cons d rest)
    have tf: "tree_find (tree' s) v = Some d"
      using tree_find_default[OF assms(1), of v] Cons by simp
    have ne: "snd d \<noteq> v" using first_not_below[OF srt Cons] nmem by simp
    have nl: "\<not> snd d < v" using Cons by (metis dropWhile_eq_Cons_conv)
    note sp = split_at_cell[OF dst Cons]
    have li: "List_insert (data' s) (Cell (fst d) (snd d)) v
                = (Cell (fresh (data' s)) v, \<lparr>cells = ?new, fresh = Suc (fresh (data' s))\<rparr>)"
      using Cons sp by (simp add: List_insert_def iterator_to_def)
    show ?thesis
      using ne nl
      by (simp add: TreeSet_insert_by_val_def tf TreeSet_end_def iterator_to_def li
            TreeSet_handle_insert_def ti rec std_less_def std_equal_to_def)
  qed
qed

lemma distinct_insert_mid:
  assumes "distinct (map fst (xs @ ys))" and "f \<notin> fst ` set (xs @ ys)"
  shows "distinct (map fst (xs @ (f, v) # ys))"
  using assms by (auto simp: image_iff)

lemma distinct_insert_between:
  assumes "distinct (map fst cs)" and "f \<notin> fst ` set cs"
  shows "distinct (map fst (takeWhile P cs @ (f, v) # dropWhile P cs))"
  using distinct_insert_mid[of "takeWhile P cs" "dropWhile P cs" f v] assms by simp

lemma TreeSet_inv_insert:
  assumes "TreeSet_inv s" and "v \<notin> set (TreeSet_values s)"
  shows "TreeSet_inv (snd (TreeSet_insert_by_val s v))"
    and "TreeSet_values (snd (TreeSet_insert_by_val s v)) = insort v (TreeSet_values s)"
proof -
  let ?cs = "cells (data' s)"
  let ?P = "\<lambda>d :: nat \<times> 'a. snd d < v"
  let ?new = "takeWhile ?P ?cs @ (fresh (data' s), v) # dropWhile ?P ?cs"
  have vals: "map snd ?new = insort v (map snd ?cs)"
    by (simp add: insort_takeWhile_dropWhile takeWhile_map dropWhile_map comp_def)
  show "TreeSet_values (snd (TreeSet_insert_by_val s v)) = insort v (TreeSet_values s)"
    using vals by (simp add: TreeSet_insert_by_val_absent[OF assms] TreeSet_values_def)
  have srt: "sorted_wrt (<) (map snd ?cs)" using assms(1) by (simp add: TreeSet_inv_def)
  have dst: "distinct (map fst ?cs)" using assms(1) by (simp add: TreeSet_inv_def)
  have bnd: "list_all (\<lambda>d. fst d < fresh (data' s)) ?cs" using assms(1) by (simp add: TreeSet_inv_def)
  have nmem: "v \<notin> set (map snd ?cs)" using assms(2) by (simp add: TreeSet_values_def)
  have "sorted_wrt (<) (insort v (map snd ?cs))"
    using srt nmem by (simp add: strict_sorted_iff sorted_insort distinct_insort)
  then have s1: "sorted_wrt (<) (map snd ?new)" using vals by simp
  have fr: "fresh (data' s) \<notin> fst ` set ?cs"
    using bnd by (auto simp: list_all_iff)
  have s2: "distinct (map fst ?new)"
    using dst fr by (rule distinct_insert_between)
  have s3: "list_all (\<lambda>d. fst d < Suc (fresh (data' s))) ?new"
    using bnd by (auto simp: list_all_iff dest!: set_takeWhileD set_dropWhileD)
  show "TreeSet_inv (snd (TreeSet_insert_by_val s v))"
    using s1 s2 s3 by (simp add: TreeSet_insert_by_val_absent[OF assms] TreeSet_inv_def)
qed

lemma TreeSet_new_inv: "TreeSet_inv (TreeSet_new std_less)"
  by (simp add: TreeSet_inv_def TreeSet_new_def)

lemma TreeSet_find_present:
  assumes "TreeSet_inv s" and "v \<in> set (TreeSet_values s)"
  shows "\<exists>i. TreeSet_find s v = Cell i v"
proof -
  let ?cs = "cells (data' s)"
  have mem: "v \<in> snd ` set ?cs" using assms(2) by (simp add: TreeSet_values_def)
  have srt: "sorted_wrt (<) (map snd ?cs)" using assms(1) by (simp add: TreeSet_inv_def)
  obtain d rest where dw: "dropWhile (\<lambda>d. snd d < v) ?cs = d # rest"
    using all_below(1)[of v ?cs] mem by (cases "dropWhile (\<lambda>d. snd d < v) ?cs") auto
  have eq: "snd d = v" using first_not_below[OF srt dw] mem by simp
  have "tree_find (tree' s) v = Some d"
    using tree_find_default[OF assms(1), of v] dw by simp
  then have "TreeSet_find s v = Cell (fst d) v"
    using eq by (simp add: TreeSet_find_def std_equal_to_def iterator_to_def)
  then show ?thesis by blast
qed

text \<open>
  Every set built from the empty set of the default constructor by \<^verbatim>\<open>insert_by_val\<close> is
  in such a state, and iterates the values inserted, each once, in increasing order
  (the spec's round trip \<open>sort_unique(S)\<close>).
\<close>

lemma TreeSet_insert_by_val_inv:
  assumes "TreeSet_inv s"
  shows "TreeSet_inv (snd (TreeSet_insert_by_val s v))"
    and "set (TreeSet_values (snd (TreeSet_insert_by_val s v))) = insert v (set (TreeSet_values s))"
proof -
  show "TreeSet_inv (snd (TreeSet_insert_by_val s v))"
  proof (cases "v \<in> set (TreeSet_values s)")
    case True
    then show ?thesis using TreeSet_insert_by_val_present[OF assms True] assms by auto
  next
    case False
    then show ?thesis using TreeSet_inv_insert(1)[OF assms False] by simp
  qed
  show "set (TreeSet_values (snd (TreeSet_insert_by_val s v))) = insert v (set (TreeSet_values s))"
  proof (cases "v \<in> set (TreeSet_values s)")
    case True
    then show ?thesis using TreeSet_insert_by_val_present[OF assms True] by auto
  next
    case False
    then show ?thesis using TreeSet_inv_insert(2)[OF assms False] by (simp add: set_insort_key)
  qed
qed

lemma TreeSet_insert_by_range_inv:
  "TreeSet_inv s \<Longrightarrow>
   TreeSet_inv (TreeSet_insert_by_range s vals)
   \<and> set (TreeSet_values (TreeSet_insert_by_range s vals)) = set (TreeSet_values s) \<union> set vals"
proof (induction vals arbitrary: s)
  case Nil
  then show ?case by (simp add: TreeSet_insert_by_range_def)
next
  case (Cons v vals)
  have step: "TreeSet_insert_by_range s (v # vals)
                = TreeSet_insert_by_range (snd (TreeSet_insert_by_val s v)) vals"
    by (simp add: TreeSet_insert_by_range_def)
  show ?case
    using Cons.IH[OF TreeSet_insert_by_val_inv(1)[OF Cons.prems, of v]]
          TreeSet_insert_by_val_inv(2)[OF Cons.prems, of v]
    by (simp add: step)
qed

lemma TreeSet_from_values:
  "TreeSet_values (TreeSet_insert_by_range (TreeSet_new std_less) vals) = sorted_list_of_set (set vals)"
proof -
  let ?s = "TreeSet_insert_by_range (TreeSet_new std_less) vals"
  have inv: "TreeSet_inv ?s" and st: "set (TreeSet_values ?s) = set vals"
    using TreeSet_insert_by_range_inv[OF TreeSet_new_inv, of vals]
    by (simp_all add: TreeSet_values_def TreeSet_new_def)
  have "sorted_wrt (<) (TreeSet_values ?s)"
    using inv by (simp add: TreeSet_inv_def TreeSet_values_def)
  then show ?thesis
    using st by (metis sorted_list_of_set.idem_if_sorted_distinct strict_sorted_iff)
qed

text \<open>The set \<open>{1, 2, 3}\<close> built by three calls of \<^verbatim>\<open>insert_by_val\<close>.\<close>

lemma TreeSet_123:
  "TreeSet_insert_by_range (TreeSet_new std_less) [1, 2, 3 :: int]
     = \<lparr>data' = \<lparr>cells = [(0, 1), (1, 2), (2, 3)], fresh = 3\<rparr>,
        tree' = \<lparr>nodes = [(0, 1), (1, 2), (2, 3)], compare' = std_less\<rparr>\<rparr>"
  by (simp add: TreeSet_insert_by_range_def TreeSet_new_def TreeSet_insert_by_val_def tree_find_def
       TreeSet_end_def std_less_def std_equal_to_def List_insert_def TreeSet_handle_insert_def
       tree_insert_def iterator_to_def SetIterator_next_def List_from_def Let_def)

lemma TreeSet_123_inv: "TreeSet_inv (TreeSet_insert_by_range (TreeSet_new std_less) [1, 2, 3 :: int])"
  by (simp add: TreeSet_123 TreeSet_inv_def)

text \<open>
  A set built from the default constructor by calls of \<^verbatim>\<open>insert_by_val\<close> alone is
  ordered by \<^verbatim>\<open>std.less\<close>, whose equivalence and \<^verbatim>\<open>equal_to\<close> are one relation. On such a
  set \<^verbatim>\<open>insert(v)\<close> leaves the container unchanged and returns (iterator to the existing
  cell, false) when the set holds a value equal to \<open>v\<close>; otherwise it returns (iterator
  to the new cell, true), the new cell holds \<open>v\<close> and stands at its sorted place in the
  element list, and the state is again one of such a set. (\<^verbatim>\<open>erase\<close> and a hinted
  \<^verbatim>\<open>insert\<close> can leave the list and the tree apart, which is outside this lemma.)
\<close>

lemma TreeSet_insert_by_val_unique:
  assumes "TreeSet_inv s"
  shows "(v \<in> set (TreeSet_values s) \<longrightarrow>
            (\<exists>i. (i, v) \<in> set (cells (data' s)) \<and> TreeSet_insert_by_val s v = ((Cell i v, False), s)))
       \<and> (v \<notin> set (TreeSet_values s) \<longrightarrow>
            fst (TreeSet_insert_by_val s v) = (Cell (fresh (data' s)) v, True)
            \<and> (fresh (data' s), v) \<in> set (cells (data' (snd (TreeSet_insert_by_val s v))))
            \<and> TreeSet_values (snd (TreeSet_insert_by_val s v)) = insort v (TreeSet_values s)
            \<and> TreeSet_inv (snd (TreeSet_insert_by_val s v)))"
proof (intro conjI impI)
  assume "v \<in> set (TreeSet_values s)"
  with assms show "\<exists>i. (i, v) \<in> set (cells (data' s)) \<and> TreeSet_insert_by_val s v = ((Cell i v, False), s)"
    by (rule TreeSet_insert_by_val_present)
next
  assume a: "v \<notin> set (TreeSet_values s)"
  show "fst (TreeSet_insert_by_val s v) = (Cell (fresh (data' s)) v, True)"
    by (simp add: TreeSet_insert_by_val_absent[OF assms a])
  show "(fresh (data' s), v) \<in> set (cells (data' (snd (TreeSet_insert_by_val s v))))"
    by (simp add: TreeSet_insert_by_val_absent[OF assms a])
  show "TreeSet_values (snd (TreeSet_insert_by_val s v)) = insort v (TreeSet_values s)"
    using assms a by (rule TreeSet_inv_insert(2))
  show "TreeSet_inv (snd (TreeSet_insert_by_val s v))"
    using assms a by (rule TreeSet_inv_insert(1))
qed

section \<open>TreeSet: insertion by hint\<close>

text \<open>The guard of \<^verbatim>\<open>insert_by_hint\<close>, for any comparator and any hint.\<close>

lemma TreeSet_insert_by_hint_guard:
  "TreeSet_has s v \<Longrightarrow> TreeSet_insert_by_hint s hint v = (End, s)"
  by (simp add: TreeSet_insert_by_hint_def TreeSet_end_def)

text \<open>
  On a set built from the default constructor by calls of \<^verbatim>\<open>insert_by_val\<close> alone,
  \<^verbatim>\<open>has(v)\<close> is true of every value the set holds, so the guard answers for each of them.
\<close>

lemma TreeSet_insert_by_hint_present:
  assumes "TreeSet_inv s" and "v \<in> set (TreeSet_values s)"
  shows "TreeSet_insert_by_hint s hint v = (End, s)"
proof -
  obtain i where "TreeSet_find s v = Cell i v"
    using TreeSet_find_present[OF assms] by blast
  then have "TreeSet_has s v"
    by (simp add: TreeSet_has_def SetIterator_equal_to_def TreeSet_end_def)
  then show ?thesis
    by (rule TreeSet_insert_by_hint_guard)
qed

text \<open>
  C6 (as amended). For a unique tree set in any state and with any comparator, a value
  \<open>v\<close> for which \<^verbatim>\<open>has(v)\<close> is true (\<^verbatim>\<open>find(v)\<close> gives an iterator to a cell that holds \<open>v\<close>,
  not \<^verbatim>\<open>end()\<close>) and every hint iterator \<open>h\<close>: \<^verbatim>\<open>insert(h, v)\<close> inserts nothing and returns
  the end iterator, which is not the iterator \<^verbatim>\<open>find(v)\<close> gives. This is the guard
  \<^verbatim>\<open>if (this.has(val) == true) return this.end();\<close>.
\<close>

theorem TreeSet_insert_by_hint_has_returns_end:
  assumes "TreeSet_has s v"
  shows "TreeSet_insert_by_hint s hint v = (TreeSet_end s, s)
       \<and> (\<exists>i. TreeSet_find s v = Cell i v)
       \<and> fst (TreeSet_insert_by_hint s hint v) \<noteq> TreeSet_find s v"
proof -
  have ret: "TreeSet_insert_by_hint s hint v = (TreeSet_end s, s)"
    using assms by (simp add: TreeSet_insert_by_hint_guard TreeSet_end_def)
  have found: "\<exists>i. TreeSet_find s v = Cell i v"
    using assms
    by (auto simp add: TreeSet_has_def TreeSet_find_def SetIterator_equal_to_def TreeSet_end_def
          iterator_to_def std_equal_to_def split: option.splits if_splits)
  from ret found show ?thesis
    by (auto simp add: TreeSet_end_def)
qed

theorem TreeSet_insert_by_hint_has_returns_end_witness:
  "TreeSet_has (TreeSet_insert_by_range (TreeSet_new std_less) [1, 2, 3 :: int]) 2
   \<and> TreeSet_insert_by_hint (TreeSet_insert_by_range (TreeSet_new std_less) [1, 2, 3 :: int]) (Cell 0 1) 2
       = (End, TreeSet_insert_by_range (TreeSet_new std_less) [1, 2, 3 :: int])
   \<and> TreeSet_find (TreeSet_insert_by_range (TreeSet_new std_less) [1, 2, 3 :: int]) 2 = Cell 1 2"
proof -
  have h: "TreeSet_has (TreeSet_insert_by_range (TreeSet_new std_less) [1, 2, 3 :: int]) 2"
    by (simp add: TreeSet_123 TreeSet_has_def TreeSet_find_def tree_find_def std_less_def
          std_equal_to_def iterator_to_def TreeSet_end_def SetIterator_equal_to_def)
  have f: "TreeSet_find (TreeSet_insert_by_range (TreeSet_new std_less) [1, 2, 3 :: int]) 2 = Cell 1 2"
    by (simp add: TreeSet_123 TreeSet_find_def tree_find_def std_less_def
          std_equal_to_def iterator_to_def TreeSet_end_def)
  show ?thesis
    using h f TreeSet_insert_by_hint_has_returns_end[OF h, of "Cell 0 1"]
    by (simp add: TreeSet_end_def)
qed

text \<open>
  C6 as stated fails: the set \<open>{1, 2, 3}\<close> holds \<open>2\<close>, and \<^verbatim>\<open>insert(h, 2)\<close> with the hint at
  the cell of \<open>1\<close> returns the end iterator, not the iterator to the cell of \<open>2\<close> (which
  is what \<^verbatim>\<open>find(2)\<close> gives).
\<close>

theorem TreeSet_insert_by_hint_duplicate_returns_end:
  "TreeSet_values (TreeSet_insert_by_range (TreeSet_new std_less) [1, 2, 3 :: int]) = [1, 2, 3]
   \<and> TreeSet_find (TreeSet_insert_by_range (TreeSet_new std_less) [1, 2, 3 :: int]) 2 = Cell 1 2
   \<and> fst (TreeSet_insert_by_hint (TreeSet_insert_by_range (TreeSet_new std_less) [1, 2, 3 :: int]) (Cell 0 1) 2) = End"
  by (simp add: TreeSet_123 TreeSet_values_def TreeSet_find_def tree_find_def std_less_def
       std_equal_to_def iterator_to_def TreeSet_insert_by_hint_def TreeSet_has_def TreeSet_end_def
       SetIterator_equal_to_def)


section \<open>TreeMultiSet: insertion by value under the default comparator\<close>

text \<open>
  The steps to the round trip of a multiset: where \<^verbatim>\<open>insert_by_val\<close> places the new cell,
  that the state stays one of a multiset so built, and what \<^verbatim>\<open>count\<close> counts.
\<close>

lemma find_app:
  "List.find P (xs @ ys) = (case List.find P xs of None \<Rightarrow> List.find P ys | Some x \<Rightarrow> Some x)"
  by (induction xs) auto

lemma find_agree_insert:
  fixes v :: "'a::linorder"
  assumes agree: "\<And>w. List.find (\<lambda>d. \<not> snd d < w) (A @ B) = List.find (\<lambda>d. \<not> snd d < w) (X @ Y)"
    and A: "\<forall>a\<in>set A. snd a \<le> v" and B: "\<forall>b\<in>set B. v < snd b"
    and X: "\<forall>x\<in>set X. snd x \<le> v" and Y: "\<forall>y\<in>set Y. v \<le> snd y"
    and XY: "(\<exists>d\<in>set X. snd d = v) \<or> (\<forall>y\<in>set Y. v < snd y)"
    and c: "snd c = v"
  shows "List.find (\<lambda>d. \<not> snd d < w) (A @ c # B) = List.find (\<lambda>d. \<not> snd d < w) (X @ c # Y)"
proof (cases "w \<le> v")
  case False
  then have w: "v < w" by simp
  have fa: "List.find (\<lambda>d. \<not> snd d < w) A = None" using A w by (auto simp: find_None_iff)
  have fx: "List.find (\<lambda>d. \<not> snd d < w) X = None" using X w by (auto simp: find_None_iff)
  show ?thesis using agree[of w] fa fx c w by (simp add: find_app)
next
  case True
  let ?F = "List.find (\<lambda>d. \<not> snd d < w)"
  have "?F A = ?F X"
  proof (cases "?F A")
    case None
    show ?thesis
    proof (cases "?F X")
      case None
      with \<open>?F A = None\<close> show ?thesis by simp
    next
      case (Some x)
      then have xin: "x \<in> set X" by (auto simp: find_Some_iff in_set_conv_nth)
      have "?F B = Some x" using agree[of w] None Some by (simp add: find_app)
      then have "x \<in> set B" by (auto simp: find_Some_iff in_set_conv_nth)
      then show ?thesis using B X xin by fastforce
    qed
  next
    case (Some a)
    then have ain: "a \<in> set A" by (auto simp: find_Some_iff in_set_conv_nth)
    show ?thesis
    proof (cases "?F X")
      case None
      then have allX: "\<forall>x\<in>set X. snd x < w" by (auto simp: find_None_iff)
      have fy: "?F Y = Some a" using agree[of w] None Some by (simp add: find_app)
      then have "a \<in> set Y" by (auto simp: find_Some_iff in_set_conv_nth)
      then show ?thesis using XY allX True A ain by fastforce
    next
      case (Some x)
      then show ?thesis using agree[of w] \<open>?F A = Some a\<close> by (simp add: find_app)
    qed
  qed
  moreover have "\<not> snd c < w" using c True by auto
  ultimately show ?thesis by (simp add: find_app split: option.split)
qed


lemma insort_between:
  fixes v :: "'a::linorder"
  assumes "sorted (xs @ ys)" and "\<forall>x\<in>set xs. x \<le> v" and "\<forall>y\<in>set ys. v \<le> y"
  shows "xs @ v # ys = insort v (xs @ ys)"
proof -
  have srt: "sorted (xs @ v # ys)"
    using assms by (auto simp: sorted_append)
  have "mset (insort v (xs @ ys)) = mset (xs @ v # ys)" by simp
  then have "sort (xs @ v # ys) = insort v (xs @ ys)"
    by (rule properties_for_sort) (simp add: sorted_insort assms(1))
  moreover have "sort (xs @ v # ys) = xs @ v # ys"
    using srt by (rule sort_key_id_if_sorted[where f="\<lambda>x. x", simplified])
  ultimately show ?thesis by simp
qed

lemma above_after_dropWhile_le:
  fixes v :: "'a::linorder"
  shows "sorted (map snd ns) \<Longrightarrow> \<forall>b\<in>set (dropWhile (\<lambda>d. \<not> v < snd d) ns). v < snd b"
  by (induction ns) (auto simp: not_less)

lemma above_after_dropWhile_less:
  fixes v :: "'a::linorder"
  shows "sorted (map snd cs) \<Longrightarrow> \<forall>y\<in>set (dropWhile (\<lambda>d. snd d < v) cs). v \<le> snd y"
  by (induction cs) (auto)

lemma split_at_id:
  assumes "distinct (map fst (X @ e # Y))"
  shows "takeWhile (\<lambda>d. fst d \<noteq> fst e) (X @ e # Y) = X"
    and "dropWhile (\<lambda>d. fst d \<noteq> fst e) (X @ e # Y) = e # Y"
proof -
  have ne: "\<forall>x \<in> set X. fst x \<noteq> fst e" using assms by (auto simp: image_iff)
  show "takeWhile (\<lambda>d. fst d \<noteq> fst e) (X @ e # Y) = X" by (simp add: ne)
  show "dropWhile (\<lambda>d. fst d \<noteq> fst e) (X @ e # Y) = e # Y" by (simp add: ne)
qed


lemma TreeMultiSet_insert_by_val_position:
  fixes s :: "('a::linorder) TreeMultiSet"
  assumes "TreeMultiSet_inv s"
  shows "\<exists>X Y. cells (data' s) = X @ Y
           \<and> (\<forall>x\<in>set X. snd x \<le> v) \<and> (\<forall>y\<in>set Y. v \<le> snd y)
           \<and> ((\<exists>d\<in>set X. snd d = v) \<or> (\<forall>y\<in>set Y. v < snd y))
           \<and> TreeMultiSet_insert_by_val s v =
               (Cell (fresh (data' s)) v,
                \<lparr>data' = \<lparr>cells = X @ (fresh (data' s), v) # Y, fresh = Suc (fresh (data' s))\<rparr>,
                 tree' = \<lparr>nodes = takeWhile (\<lambda>d. \<not> v < snd d) (nodes (tree' s)) @ (fresh (data' s), v)
                                    # dropWhile (\<lambda>d. \<not> v < snd d) (nodes (tree' s)),
                          compare' = std_less\<rparr>\<rparr>)"
proof -
  let ?cs = "cells (data' s)"
  let ?P = "\<lambda>d :: nat \<times> 'a. snd d < v"
  let ?f = "fresh (data' s)"
  let ?t' = "\<lparr>nodes = takeWhile (\<lambda>d. \<not> v < snd d) (nodes (tree' s)) @ (?f, v)
                       # dropWhile (\<lambda>d. \<not> v < snd d) (nodes (tree' s)),
              compare' = std_less\<rparr>"
  have srt: "sorted (map snd ?cs)" using assms by (simp add: TreeMultiSet_inv_def)
  have dst: "distinct (map fst ?cs)" using assms by (simp add: TreeMultiSet_inv_def)
  have cmp: "compare' (tree' s) = std_less" using assms by (simp add: TreeMultiSet_inv_def)
  have agree: "List.find (\<lambda>d. \<not> snd d < v) (nodes (tree' s)) = List.find (\<lambda>d. \<not> snd d < v) ?cs"
    using assms by (simp add: TreeMultiSet_inv_def)
  have "(Not \<circ> (\<lambda>d. \<not> snd d < v)) = ?P" by auto
  then have tf: "tree_find (tree' s) v = (case dropWhile ?P ?cs of [] \<Rightarrow> None | d # _ \<Rightarrow> Some d)"
    using agree cmp by (simp add: tree_find_def std_less_def find_dropWhile)
  have ti: "tree_insert (tree' s) (Cell ?f v) = ?t'"
    by (cases "tree' s") (use cmp in \<open>simp add: tree_insert_def std_less_def\<close>)
  have rec: "\<And>l t. s\<lparr>data' := l, tree' := t\<rparr> = \<lparr>data' = l, tree' = t\<rparr>"
    by (cases s) simp
  have cs: "?cs = takeWhile ?P ?cs @ dropWhile ?P ?cs" by simp
  have pre: "\<forall>x\<in>set (takeWhile ?P ?cs). snd x < v" by (metis set_takeWhileD)
  note post = above_after_dropWhile_less[OF srt, of v]
  show ?thesis
  proof (cases "dropWhile ?P ?cs")
    case Nil
    have all: "takeWhile ?P ?cs = ?cs" using Nil by (simp add: dropWhile_eq_Nil_conv)
    have li: "List_insert (data' s) End v = (Cell ?f v, \<lparr>cells = ?cs @ (?f, v) # [], fresh = Suc ?f\<rparr>)"
      by (simp add: List_insert_def iterator_to_def)
    have res: "TreeMultiSet_insert_by_val s v = (Cell ?f v, \<lparr>data' = \<lparr>cells = ?cs @ (?f, v) # [], fresh = Suc ?f\<rparr>, tree' = ?t'\<rparr>)"
      using tf Nil by (simp add: TreeMultiSet_insert_by_val_def TreeSet_end_def li TreeSet_handle_insert_def ti rec)
    have "\<forall>x\<in>set ?cs. snd x \<le> v" using pre all by fastforce
    then show ?thesis using res by (intro exI[of _ ?cs] exI[of _ "[]"]) simp
  next
    case (Cons d rest)
    have tfd: "tree_find (tree' s) v = Some d" using tf Cons by simp
    have csd: "?cs = takeWhile ?P ?cs @ d # rest" using cs Cons by simp
    have dstd: "distinct (map fst (takeWhile ?P ?cs @ d # rest))" using dst csd by simp
    have nl: "\<not> snd d < v" using Cons by (metis dropWhile_eq_Cons_conv)
    have postd: "v \<le> snd d" "\<forall>y\<in>set rest. v \<le> snd y" using post Cons by simp_all
    show ?thesis
    proof (cases "snd d = v")
      case True
      let ?X = "takeWhile ?P ?cs @ [d]"
      have csX: "?cs = ?X @ rest" using csd by simp
      have nxt: "SetIterator_next (data' s) (iterator_to d) = (case rest of [] \<Rightarrow> End | e # _ \<Rightarrow> iterator_to e)"
        using split_at_id(2)[OF dstd] csd
        by (simp add: SetIterator_next_def List_from_def iterator_to_def split: list.split)
      have li: "List_insert (data' s) (case rest of [] \<Rightarrow> End | e # _ \<Rightarrow> iterator_to e) v
                  = (Cell ?f v, \<lparr>cells = ?X @ (?f, v) # rest, fresh = Suc ?f\<rparr>)"
      proof (cases rest)
        case Nil
        then show ?thesis using csX by (simp add: List_insert_def iterator_to_def)
      next
        case (Cons e rest')
        have d2: "distinct (map fst (?X @ e # rest'))" using dst csX Cons by simp
        have "?cs = ?X @ e # rest'" using csX Cons by simp
        then show ?thesis
          using split_at_id[OF d2] Cons by (simp add: List_insert_def iterator_to_def)
      qed
      have res: "TreeMultiSet_insert_by_val s v = (Cell ?f v, \<lparr>data' = \<lparr>cells = ?X @ (?f, v) # rest, fresh = Suc ?f\<rparr>, tree' = ?t'\<rparr>)"
        using True
        by (simp add: TreeMultiSet_insert_by_val_def tfd TreeSet_end_def std_equal_to_def nxt li
              TreeSet_handle_insert_def ti rec)
      have "\<forall>x\<in>set ?X. snd x \<le> v" using pre True by fastforce
      moreover have "\<exists>d\<in>set ?X. snd d = v" using True by simp
      ultimately show ?thesis using res csX postd(2)
        by (intro exI[of _ ?X] exI[of _ rest]) blast
    next
      case False
      then have lt: "v < snd d" using nl by auto
      let ?X = "takeWhile ?P ?cs"
      have li: "List_insert (data' s) (iterator_to d) v
                  = (Cell ?f v, \<lparr>cells = ?X @ (?f, v) # d # rest, fresh = Suc ?f\<rparr>)"
        using split_at_id[OF dstd] csd by (simp add: List_insert_def iterator_to_def)
      have res: "TreeMultiSet_insert_by_val s v = (Cell ?f v, \<lparr>data' = \<lparr>cells = ?X @ (?f, v) # d # rest, fresh = Suc ?f\<rparr>, tree' = ?t'\<rparr>)"
        using False nl
        by (simp add: TreeMultiSet_insert_by_val_def tfd TreeSet_end_def std_equal_to_def std_less_def li
              TreeSet_handle_insert_def ti rec)
      have x: "\<forall>x\<in>set ?X. snd x \<le> v" using pre by fastforce
      have y: "\<forall>y\<in>set (d # rest). v \<le> snd y" using postd by simp
      have "sorted (map snd (d # rest))" using srt csd by (metis map_append sorted_append)
      then have y': "\<forall>y\<in>set (d # rest). v < snd y" using lt by fastforce
      show ?thesis using res csd x y y'
        by (intro exI[of _ ?X] exI[of _ "d # rest"]) blast
    qed
  qed
qed

lemma TreeMultiSet_insert_by_val_inv:
  fixes s :: "('a::linorder) TreeMultiSet"
  assumes "TreeMultiSet_inv s"
  shows "TreeMultiSet_inv (snd (TreeMultiSet_insert_by_val s v))"
    and "TreeSet_values (snd (TreeMultiSet_insert_by_val s v)) = insort v (TreeSet_values s)"
proof -
  let ?cs = "cells (data' s)"
  let ?ns = "nodes (tree' s)"
  let ?f = "fresh (data' s)"
  let ?A = "takeWhile (\<lambda>d. \<not> v < snd d) ?ns"
  let ?B = "dropWhile (\<lambda>d. \<not> v < snd d) ?ns"
  from TreeMultiSet_insert_by_val_position[OF assms, of v]
  obtain X Y where H: "?cs = X @ Y
           \<and> (\<forall>x\<in>set X. snd x \<le> v) \<and> (\<forall>y\<in>set Y. v \<le> snd y)
           \<and> ((\<exists>d\<in>set X. snd d = v) \<or> (\<forall>y\<in>set Y. v < snd y))
           \<and> TreeMultiSet_insert_by_val s v =
               (Cell ?f v, \<lparr>data' = \<lparr>cells = X @ (?f, v) # Y, fresh = Suc ?f\<rparr>,
                            tree' = \<lparr>nodes = ?A @ (?f, v) # ?B, compare' = std_less\<rparr>\<rparr>)"
    by (elim exE) (rule that)
  from H have cs: "?cs = X @ Y" by (rule conjunct1)
  from H have X: "\<forall>x\<in>set X. snd x \<le> v" by (elim conjE)
  from H have Y: "\<forall>y\<in>set Y. v \<le> snd y" by (elim conjE)
  from H have XY: "(\<exists>d\<in>set X. snd d = v) \<or> (\<forall>y\<in>set Y. v < snd y)" by (elim conjE)
  from H have res: "TreeMultiSet_insert_by_val s v =
               (Cell ?f v, \<lparr>data' = \<lparr>cells = X @ (?f, v) # Y, fresh = Suc ?f\<rparr>,
                            tree' = \<lparr>nodes = ?A @ (?f, v) # ?B, compare' = std_less\<rparr>\<rparr>)"
    by (elim conjE)
  have srt: "sorted (map snd ?cs)" using assms by (simp add: TreeMultiSet_inv_def)
  have srtn: "sorted (map snd ?ns)" using assms by (simp add: TreeMultiSet_inv_def)
  have dst: "distinct (map fst ?cs)" using assms by (simp add: TreeMultiSet_inv_def)
  have bnd: "list_all (\<lambda>d. fst d < ?f) ?cs" using assms by (simp add: TreeMultiSet_inv_def)
  have agree: "\<And>w. List.find (\<lambda>d. \<not> snd d < w) ?ns = List.find (\<lambda>d. \<not> snd d < w) ?cs"
    using assms by (simp add: TreeMultiSet_inv_def)
  have vals: "map snd (X @ (?f, v) # Y) = insort v (map snd ?cs)"
    using insort_between[of "map snd X" "map snd Y" v] srt X Y by (simp add: cs)
  show "TreeSet_values (snd (TreeMultiSet_insert_by_val s v)) = insort v (TreeSet_values s)"
    using vals by (simp add: res TreeSet_values_def)
  have s1: "sorted (map snd (X @ (?f, v) # Y))"
    using vals srt by (simp only: sorted_insort)
  have A: "\<forall>a\<in>set ?A. snd a \<le> v"
    by (auto dest!: set_takeWhileD)
  note B = above_after_dropWhile_le[OF srtn, of v]
  have nsAB: "?ns = ?A @ ?B" by simp
  have "map snd ?ns = map snd ?A @ map snd ?B"
    by (metis map_append takeWhile_dropWhile_id)
  then have sAB: "sorted (map snd ?A @ map snd ?B)" using srtn by simp
  have lo: "\<forall>a\<in>set (map snd ?A). a \<le> v" using A by simp
  have hi: "\<forall>b\<in>set (map snd ?B). v \<le> b"
  proof
    fix b assume "b \<in> set (map snd ?B)"
    then obtain d where "d \<in> set ?B" and "b = snd d" by (auto simp: image_iff)
    then have "v < snd d" and "b = snd d" using B by blast+
    then show "v \<le> b" by simp
  qed
  have "map snd ?A @ v # map snd ?B = insort v (map snd ?A @ map snd ?B)"
    using sAB lo hi by (rule insort_between)
  then have "sorted (map snd ?A @ v # map snd ?B)"
    using sAB by (simp only: sorted_insort)
  then have s2: "sorted (map snd (?A @ (?f, v) # ?B))" by simp
  have fr0: "?f \<notin> fst ` set ?cs" using bnd by (auto simp: list_all_iff)
  have fr: "?f \<notin> fst ` set (X @ Y)" using fr0 unfolding cs .
  have "distinct (map fst (X @ Y))" using dst unfolding cs .
  then have s3: "distinct (map fst (X @ (?f, v) # Y))"
    using fr by (rule distinct_insert_mid)
  have "list_all (\<lambda>d. fst d < Suc ?f) ?cs"
    using bnd by (auto simp: list_all_iff)
  then have "list_all (\<lambda>d. fst d < Suc ?f) (X @ Y)" unfolding cs .
  then have s4: "list_all (\<lambda>d. fst d < Suc ?f) (X @ (?f, v) # Y)"
    by simp
  have s5: "\<And>w. List.find (\<lambda>d. \<not> snd d < w) (?A @ (?f, v) # ?B)
                 = List.find (\<lambda>d. \<not> snd d < w) (X @ (?f, v) # Y)"
  proof -
    fix w
    have ag: "\<And>w. List.find (\<lambda>d. \<not> snd d < w) (?A @ ?B) = List.find (\<lambda>d. \<not> snd d < w) (X @ Y)"
      using agree cs by simp
    show "List.find (\<lambda>d. \<not> snd d < w) (?A @ (?f, v) # ?B)
            = List.find (\<lambda>d. \<not> snd d < w) (X @ (?f, v) # Y)"
      by (rule find_agree_insert[OF ag A B X Y XY]) simp
  qed
  show "TreeMultiSet_inv (snd (TreeMultiSet_insert_by_val s v))"
    using s1 s2 s3 s4 s5 by (simp add: res TreeMultiSet_inv_def)
qed

lemma TreeMultiSet_new_inv: "TreeMultiSet_inv (TreeSet_new std_less)"
  by (simp add: TreeMultiSet_inv_def TreeSet_new_def)

lemma TreeMultiSet_insert_by_range_inv:
  fixes s :: "('a::linorder) TreeMultiSet"
  shows "TreeMultiSet_inv s \<Longrightarrow>
   TreeMultiSet_inv (TreeMultiSet_insert_by_range s vals)
   \<and> mset (TreeSet_values (TreeMultiSet_insert_by_range s vals)) = mset (TreeSet_values s) + mset vals"
proof (induction vals arbitrary: s)
  case Nil
  then show ?case by (simp add: TreeMultiSet_insert_by_range_def)
next
  case (Cons v vals)
  have step: "TreeMultiSet_insert_by_range s (v # vals)
                = TreeMultiSet_insert_by_range (snd (TreeMultiSet_insert_by_val s v)) vals"
    by (simp add: TreeMultiSet_insert_by_range_def)
  show ?case
    using Cons.IH[OF TreeMultiSet_insert_by_val_inv(1)[OF Cons.prems, of v]]
          TreeMultiSet_insert_by_val_inv(2)[OF Cons.prems, of v]
    by (simp add: step)
qed

lemma TreeMultiSet_from_values:
  "TreeSet_values (TreeMultiSet_insert_by_range (TreeSet_new std_less) vals) = sort vals"
proof -
  let ?s = "TreeMultiSet_insert_by_range (TreeSet_new std_less) vals"
  have inv: "TreeMultiSet_inv ?s" and ms: "mset (TreeSet_values ?s) = mset vals"
    using TreeMultiSet_insert_by_range_inv[OF TreeMultiSet_new_inv, of vals]
    by (simp_all add: TreeSet_values_def TreeSet_new_def)
  have srt: "sorted (TreeSet_values ?s)"
    using inv by (simp add: TreeMultiSet_inv_def TreeSet_values_def)
  show ?thesis using properties_for_sort[OF ms srt] by simp
qed

lemma count_loop_takeWhile:
  "count_loop v ds n = n + length (takeWhile (\<lambda>e. snd e = v) ds)"
  by (induction ds arbitrary: n) (simp_all add: std_equal_to_def)

lemma run_length_count:
  fixes v :: "'a::linorder"
  assumes "sorted (map snd ds)" and "\<forall>y\<in>set ds. v \<le> snd y"
  shows "length (takeWhile (\<lambda>e. snd e = v) ds) = count_list (map snd ds) v"
  using assms
proof (induction ds)
  case Nil
  then show ?case by simp
next
  case (Cons e ds)
  show ?case
  proof (cases "snd e = v")
    case True
    then show ?thesis using Cons by simp
  next
    case False
    then have "v < snd e" using Cons.prems(2) by fastforce
    then have "v \<notin> set (map snd ds)" using Cons.prems(1) by fastforce
    then show ?thesis using False by (simp add: count_list_0_iff)
  qed
qed

lemma TreeMultiSet_count_occurrences:
  fixes s :: "('a::linorder) TreeMultiSet"
  assumes "TreeMultiSet_inv s"
  shows "TreeMultiSet_count s v = count_list (TreeSet_values s) v"
proof -
  let ?cs = "cells (data' s)"
  let ?P = "\<lambda>d :: nat \<times> 'a. snd d < v"
  have srt: "sorted (map snd ?cs)" using assms by (simp add: TreeMultiSet_inv_def)
  have dst: "distinct (map fst ?cs)" using assms by (simp add: TreeMultiSet_inv_def)
  have cmp: "compare' (tree' s) = std_less" using assms by (simp add: TreeMultiSet_inv_def)
  have agree: "List.find (\<lambda>d. \<not> snd d < v) (nodes (tree' s)) = List.find (\<lambda>d. \<not> snd d < v) ?cs"
    using assms by (simp add: TreeMultiSet_inv_def)
  have "(Not \<circ> (\<lambda>d. \<not> snd d < v)) = ?P" by auto
  then have tf: "tree_find (tree' s) v = (case dropWhile ?P ?cs of [] \<Rightarrow> None | d # _ \<Rightarrow> Some d)"
    using agree cmp by (simp add: tree_find_def std_less_def find_dropWhile)
  have pre0: "count_list (map snd (takeWhile ?P ?cs)) v = 0"
    by (auto simp: count_list_0_iff dest: set_takeWhileD)
  have split: "count_list (map snd ?cs) v = count_list (map snd (dropWhile ?P ?cs)) v"
  proof -
    have "map snd ?cs = map snd (takeWhile ?P ?cs) @ map snd (dropWhile ?P ?cs)"
      by (metis map_append takeWhile_dropWhile_id)
    then show ?thesis using pre0 by simp
  qed
  have "map snd (dropWhile ?P ?cs) = dropWhile (\<lambda>x. x < v) (map snd ?cs)"
    by (simp add: dropWhile_map comp_def)
  then have srtp: "sorted (map snd (dropWhile ?P ?cs))"
    using srt by (simp only: sorted_dropWhile)
  note post = above_after_dropWhile_less[OF srt, of v]
  have run: "length (takeWhile (\<lambda>e. snd e = v) (dropWhile ?P ?cs)) = count_list (map snd ?cs) v"
    using run_length_count[OF srtp post] split by simp
  show ?thesis
  proof (cases "dropWhile ?P ?cs")
    case Nil
    have fnd: "TreeMultiSet_find s v = End"
      by (simp add: TreeMultiSet_find_def tf Nil TreeSet_end_def)
    have "count_list (map snd ?cs) v = 0" using run by (simp add: Nil)
    then show ?thesis
      by (simp add: TreeMultiSet_count_def fnd List_from_def TreeSet_values_def)
  next
    case (Cons d rest)
    have csd: "?cs = takeWhile ?P ?cs @ d # rest" using Cons by (metis takeWhile_dropWhile_id)
    have dstd: "distinct (map fst (takeWhile ?P ?cs @ d # rest))" using dst csd by simp
    have from_d: "dropWhile (\<lambda>e. fst e \<noteq> fst d) ?cs = d # rest"
      using split_at_id(2)[OF dstd] csd by simp
    have run': "length (takeWhile (\<lambda>e. snd e = v) (d # rest)) = count_list (map snd ?cs) v"
      using run by (simp only: Cons)
    show ?thesis
    proof (cases "snd d = v")
      case True
      have fnd: "TreeMultiSet_find s v = Cell (fst d) v"
        by (simp add: TreeMultiSet_find_def tf Cons std_equal_to_def iterator_to_def True)
      have "TreeMultiSet_count s v = count_loop v (d # rest) 0"
        by (simp add: TreeMultiSet_count_def fnd List_from_def from_d)
      then show ?thesis using run'
        by (simp only: count_loop_takeWhile TreeSet_values_def add_0)
    next
      case False
      have fnd: "TreeMultiSet_find s v = End"
        using False by (simp add: TreeMultiSet_find_def tf Cons std_equal_to_def TreeSet_end_def)
      have "count_list (map snd ?cs) v = 0" using run' False by simp
      then show ?thesis
        by (simp add: TreeMultiSet_count_def fnd List_from_def TreeSet_values_def)
    qed
  qed
qed

lemma TreeMultiSet_count_inserted:
  "TreeMultiSet_count (TreeMultiSet_insert_by_range (TreeSet_new std_less) vals) v = count_list vals v"
proof -
  have "TreeMultiSet_inv (TreeMultiSet_insert_by_range (TreeSet_new std_less) vals)"
    using TreeMultiSet_insert_by_range_inv[OF TreeMultiSet_new_inv, of vals] by simp
  then have "TreeMultiSet_count (TreeMultiSet_insert_by_range (TreeSet_new std_less) vals) v
               = count_list (sort vals) v"
    by (simp add: TreeMultiSet_count_occurrences TreeMultiSet_from_values)
  also have "\<dots> = count (mset (sort vals)) v" by (simp only: count_mset)
  also have "\<dots> = count_list vals v" by (simp add: count_mset)
  finally show ?thesis .
qed

text \<open>
  For a multiset ordered by the default comparator \<^verbatim>\<open>std.less\<close> (on numbers and strings,
  where equivalent elements are equal) and every finite sequence \<open>S\<close>: inserting the
  elements of \<open>S\<close> one by one and then iterating forward yields the values of \<open>S\<close> in
  non-decreasing order, which is the stable sort of \<open>S\<close>, and \<^verbatim>\<open>count(v)\<close> is the number
  of occurrences of \<open>v\<close> in \<open>S\<close>.
\<close>

lemma TreeMultiSet_insert_by_range_sorted:
  "TreeSet_values (TreeMultiSet_insert_by_range (TreeSet_new std_less) S) = sort S
   \<and> sorted (TreeSet_values (TreeMultiSet_insert_by_range (TreeSet_new std_less) S))
   \<and> mset (TreeSet_values (TreeMultiSet_insert_by_range (TreeSet_new std_less) S)) = mset S
   \<and> TreeMultiSet_count (TreeMultiSet_insert_by_range (TreeSet_new std_less) S) v = count_list S v"
  by (simp add: TreeMultiSet_from_values TreeMultiSet_count_inserted)

text \<open>
  The spec's scenario E2: inserting \<open>[2, 2, 1, 2, 3]\<close> gives the forward iteration
  \<open>[1, 2, 2, 2, 3]\<close> and \<^verbatim>\<open>count(2) == 3\<close>.
\<close>

lemma TreeMultiSet_scenario_E2:
  "TreeSet_values (TreeMultiSet_insert_by_range (TreeSet_new std_less) [2, 2, 1, 2, 3 :: int]) = [1, 2, 2, 2, 3]
   \<and> TreeMultiSet_count (TreeMultiSet_insert_by_range (TreeSet_new std_less) [2, 2, 1, 2, 3 :: int]) 2 = 3"
  using TreeMultiSet_insert_by_range_sorted[of "[2, 2, 1, 2, 3 :: int]" 2]
  by simp

section \<open>Where the code leaves the specified behaviour\<close>

lemma TreeSet_handle_erase_done: "TreeSet_handle_erase l t first first = Some t"
  by (subst TreeSet_handle_erase.simps) (simp add: SetIterator_equal_to_def)

lemma TreeSet_handle_erase_step:
  "first \<noteq> last' \<Longrightarrow>
   TreeSet_handle_erase l t first last'
     = TreeSet_handle_erase l (tree_erase t last') (SetIterator_next l first) last'"
  by (subst TreeSet_handle_erase.simps) (simp add: SetIterator_equal_to_def)

text \<open>
  The unique set's \<^verbatim>\<open>upper_bound\<close> is its \<^verbatim>\<open>lower_bound\<close> on every state and key; of
  \<^verbatim>\<open>equal_range\<close> the first component is \<^verbatim>\<open>lower_bound\<close>. The multiset's \<^verbatim>\<open>equal_range\<close> is
  the pair of its \<^verbatim>\<open>lower_bound\<close> and \<^verbatim>\<open>upper_bound\<close>.
\<close>

lemma TreeSet_upper_bound_eq_lower_bound: "TreeSet_upper_bound s k = TreeSet_lower_bound s k"
  by (simp add: TreeSet_upper_bound_def TreeSet_lower_bound_def)

lemma TreeSet_equal_range_first: "fst (TreeSet_equal_range s k) = TreeSet_lower_bound s k"
  by (simp add: TreeSet_equal_range_def tree_equal_range_def TreeSet_lower_bound_def)

lemma TreeMultiSet_equal_range_bounds:
  "TreeMultiSet_equal_range s k = (TreeMultiSet_lower_bound s k, TreeMultiSet_upper_bound s k)"
  by (simp add: TreeMultiSet_equal_range_def tree_equal_range_def TreeMultiSet_lower_bound_def
       TreeMultiSet_upper_bound_def)

text \<open>
  A hint that fails the test, for a value the set does not hold, gives what
  \<^verbatim>\<open>insert_by_val\<close> gives.
\<close>

lemma TreeSet_insert_by_hint_wrong_hint:
  assumes "\<not> TreeSet_has s v"
    and "\<not> (compare_values (tree_key_comp (tree' s)) (SetIterator_value hint) (Some v)
            \<and> (SetIterator_next (data' s) hint = End
                \<or> compare_values (tree_key_comp (tree' s)) (Some v)
                     (SetIterator_value (SetIterator_next (data' s) hint))))"
  shows "TreeSet_insert_by_hint s hint v
           = (fst (fst (TreeSet_insert_by_val s v)), snd (TreeSet_insert_by_val s v))"
  using assms
  by (auto simp add: TreeSet_insert_by_hint_def SetIterator_equal_to_def TreeSet_end_def Let_def
        split: prod.splits)

text \<open>
  C1. \<^verbatim>\<open>insert(v)\<close> on a unique tree set is to leave the container unchanged and return
  (iterator to the existing cell, false) exactly when the set holds an element
  equivalent to \<open>v\<close> under the set's comparator. \<^verbatim>\<open>insert_by_val\<close> tests
  \<^verbatim>\<open>std.equal_to\<close> on the node the tree search returns and never the comparator: a
  set built with the comparator \<open>x mod 10 < y mod 10\<close> that holds \<open>1\<close> holds an element
  equivalent to \<open>11\<close>, yet \<^verbatim>\<open>insert(11)\<close> inserts and returns true, and the set then holds
  the two equivalent values \<open>1\<close> and \<open>11\<close>.
\<close>

theorem TreeSet_insert_by_val_equivalent_inserted:
  "TreeSet_values (TreeSet_insert_by_range (TreeSet_new (\<lambda>x y :: int. x mod 10 < y mod 10)) [1]) = [1]
   \<and> equivalent (tree_key_comp (tree' (TreeSet_insert_by_range (TreeSet_new (\<lambda>x y :: int. x mod 10 < y mod 10)) [1]))) 1 11
   \<and> fst (TreeSet_insert_by_val (TreeSet_insert_by_range (TreeSet_new (\<lambda>x y :: int. x mod 10 < y mod 10)) [1]) 11)
       = (Cell 1 11, True)
   \<and> TreeSet_values (snd (TreeSet_insert_by_val (TreeSet_insert_by_range (TreeSet_new (\<lambda>x y :: int. x mod 10 < y mod 10)) [1]) 11))
       = [1, 11]"
  by (simp add: TreeSet_insert_by_range_def TreeSet_new_def TreeSet_insert_by_val_def tree_find_def
       TreeSet_end_def std_less_def std_equal_to_def List_insert_def TreeSet_handle_insert_def
       tree_insert_def iterator_to_def SetIterator_next_def List_from_def Let_def
       TreeSet_values_def equivalent_def tree_key_comp_def)

text \<open>
  C2. In the set \<open>{1, 2, 3}\<close> the smallest element strictly greater than \<open>2\<close> is \<open>3\<close>.
  \<^verbatim>\<open>TreeSet.upper_bound(2)\<close> returns the iterator to the cell of \<open>2\<close>: it calls
  \<^verbatim>\<open>tree_.lower_bound\<close>. \<^verbatim>\<open>TreeMultiSet.upper_bound\<close>, which calls \<^verbatim>\<open>tree_.upper_bound\<close>,
  returns the iterator to the cell of \<open>3\<close> on the same state.
\<close>

theorem TreeSet_upper_bound_is_lower_bound:
  "TreeSet_values (TreeSet_insert_by_range (TreeSet_new std_less) [1, 2, 3 :: int]) = [1, 2, 3]
   \<and> TreeSet_upper_bound (TreeSet_insert_by_range (TreeSet_new std_less) [1, 2, 3 :: int]) 2 = Cell 1 2
   \<and> TreeSet_lower_bound (TreeSet_insert_by_range (TreeSet_new std_less) [1, 2, 3 :: int]) 2 = Cell 1 2
   \<and> TreeMultiSet_upper_bound (TreeSet_insert_by_range (TreeSet_new std_less) [1, 2, 3 :: int]) 2 = Cell 2 3"
  by (simp add: TreeSet_123 TreeSet_values_def TreeSet_upper_bound_def TreeSet_lower_bound_def
       TreeMultiSet_upper_bound_def tree_lower_bound_def tree_upper_bound_def std_less_def
       iterator_to_def)

text \<open>
  C3. Erasing the first element of the set \<open>{1, 2, 3}\<close>, \<^verbatim>\<open>erase(first, last)\<close> with
  \<open>first\<close> at the cell of \<open>1\<close> and \<open>last\<close> at the cell of \<open>2\<close>: the cell of \<open>1\<close> leaves the
  element list, and \<^verbatim>\<open>handle_erase\<close> unlinks the node of \<open>last\<close>, the cell of \<open>2\<close>, from
  the tree. The list then holds the cells of \<open>2\<close> and \<open>3\<close>, the tree those of \<open>1\<close> and \<open>3\<close>.
\<close>

theorem TreeSet_erase_unlinks_last:
  "TreeSet_handle_erase
       (data' (TreeSet_insert_by_range (TreeSet_new std_less) [1, 2, 3 :: int]))
       (tree' (TreeSet_insert_by_range (TreeSet_new std_less) [1, 2, 3 :: int]))
       (Cell 0 1) (Cell 1 2)
     = Some \<lparr>nodes = [(0, 1), (2, 3)], compare' = std_less\<rparr>
   \<and> map_option (\<lambda>r. (cells (data' (snd r)), nodes (tree' (snd r))))
       (TreeSet_erase (TreeSet_insert_by_range (TreeSet_new std_less) [1, 2, 3 :: int]) (Cell 0 1) (Cell 1 2))
     = Some ([(1, 2), (2, 3)], [(0, 1), (2, 3)])"
  by (simp add: TreeSet_123 TreeSet_erase_def List_erase_def TreeSet_handle_erase_step
       TreeSet_handle_erase_done SetIterator_next_def List_from_def iterator_to_def tree_erase_def)

text \<open>
  Where the set was built with a comparator whose equivalence is coarser than
  \<^verbatim>\<open>equal_to\<close>, \<^verbatim>\<open>insert_by_val\<close> places a new cell before a found cell that is equivalent
  but not equal: with \<open>x div 10 < y div 10\<close>, after \<^verbatim>\<open>insert(15)\<close> and \<^verbatim>\<open>insert(12)\<close> forward
  iteration yields \<open>[12, 15]\<close>, while the stable order of the two equivalent values is
  \<open>[15, 12]\<close>.
\<close>

lemma TreeMultiSet_insert_before_equivalent:
  "TreeSet_values (TreeMultiSet_insert_by_range (TreeSet_new (\<lambda>x y :: int. x div 10 < y div 10)) [15, 12])
     = [12, 15]
   \<and> equivalent (tree_key_comp (tree' (TreeMultiSet_insert_by_range
          (TreeSet_new (\<lambda>x y :: int. x div 10 < y div 10)) [15, 12]))) 15 12
   \<and> sort_key (\<lambda>x :: int. x div 10) [15, 12] = [15, 12]"
  by (simp add: TreeMultiSet_insert_by_range_def TreeSet_new_def TreeMultiSet_insert_by_val_def
       tree_find_def TreeSet_end_def std_less_def std_equal_to_def List_insert_def
       TreeSet_handle_insert_def tree_insert_def iterator_to_def SetIterator_next_def List_from_def
       Let_def TreeSet_values_def tree_key_comp_def equivalent_def)

text \<open>
  C4. Inserting a sequence into a multiset and iterating forward is to yield its stable
  sort under the set's comparator. \<^verbatim>\<open>insert_by_val\<close> picks the place of the new cell with
  \<^verbatim>\<open>std.less\<close>, whatever comparator the set was built with: a multiset built with the
  descending comparator \<open>x > y\<close>, after \<^verbatim>\<open>insert(1)\<close> and \<^verbatim>\<open>insert(2)\<close>, iterates \<open>[1, 2]\<close>,
  though its comparator puts \<open>2\<close> before \<open>1\<close>. (With the default comparator the values
  come out sorted: \<open>TreeMultiSet_insert_by_range_sorted\<close>.)
\<close>

theorem TreeMultiSet_insert_ignores_comparator:
  "TreeSet_values (TreeMultiSet_insert_by_range (TreeSet_new (\<lambda>x y :: int. y < x)) [1, 2]) = [1, 2]
   \<and> tree_key_comp (tree' (TreeMultiSet_insert_by_range (TreeSet_new (\<lambda>x y :: int. y < x)) [1, 2])) 2 1
   \<and> sort_key (\<lambda>x :: int. - x) [1, 2] = [2, 1]"
  by (simp add: TreeMultiSet_insert_by_range_def TreeSet_new_def TreeMultiSet_insert_by_val_def
       tree_find_def TreeSet_end_def std_less_def std_equal_to_def List_insert_def
       TreeSet_handle_insert_def tree_insert_def iterator_to_def SetIterator_next_def List_from_def
       Let_def TreeSet_values_def tree_key_comp_def)

text \<open>
  C5. In the set \<open>{1, 3}\<close> the hint at the cell of \<open>1\<close> is right for \<open>2\<close>: \<open>1 < 2\<close> and
  \<open>2 < 3\<close>. \<^verbatim>\<open>insert(hint, 2)\<close> passes the hint itself to \<^verbatim>\<open>data_.insert\<close>, so the new cell
  stands immediately before the hint's cell: the element list reads \<open>[2, 1, 3]\<close>. The
  multiset's \<^verbatim>\<open>insert_by_hint\<close> makes the same call.
\<close>

theorem TreeSet_insert_by_hint_before_hint:
  "TreeSet_values (TreeSet_insert_by_range (TreeSet_new std_less) [1, 3 :: int]) = [1, 3]
   \<and> fst (TreeSet_insert_by_hint (TreeSet_insert_by_range (TreeSet_new std_less) [1, 3 :: int]) (Cell 0 1) 2) = Cell 2 2
   \<and> TreeSet_values (snd (TreeSet_insert_by_hint (TreeSet_insert_by_range (TreeSet_new std_less) [1, 3 :: int]) (Cell 0 1) 2))
       = [2, 1, 3]
   \<and> TreeSet_values (snd (TreeMultiSet_insert_by_hint (TreeSet_insert_by_range (TreeSet_new std_less) [1, 3 :: int]) (Cell 0 1) 2))
       = [2, 1, 3]"
  by (simp add: TreeMultiSet_insert_by_hint_def TreeSet_insert_by_range_def TreeSet_new_def TreeSet_insert_by_val_def tree_find_def
       TreeSet_end_def std_less_def std_equal_to_def List_insert_def TreeSet_handle_insert_def
       tree_insert_def iterator_to_def SetIterator_next_def List_from_def Let_def TreeSet_values_def
       TreeSet_insert_by_hint_def TreeSet_has_def TreeSet_find_def SetIterator_equal_to_def
       tree_key_comp_def compare_values_def SetIterator_value_def)

text \<open>
  C7. In the set \<open>{1, 2, 3}\<close>, \<^verbatim>\<open>equal_range(2)\<close> is the pair of the iterators to the cells
  of \<open>2\<close> and \<open>3\<close>. Its first component is \<^verbatim>\<open>lower_bound(2)\<close>; its second is not what the
  set's \<^verbatim>\<open>upper_bound(2)\<close> returns, the iterator to the cell of \<open>2\<close>.
\<close>

theorem TreeSet_equal_range_second_not_upper_bound:
  "TreeSet_equal_range (TreeSet_insert_by_range (TreeSet_new std_less) [1, 2, 3 :: int]) 2 = (Cell 1 2, Cell 2 3)
   \<and> TreeSet_lower_bound (TreeSet_insert_by_range (TreeSet_new std_less) [1, 2, 3 :: int]) 2 = Cell 1 2
   \<and> TreeSet_upper_bound (TreeSet_insert_by_range (TreeSet_new std_less) [1, 2, 3 :: int]) 2 = Cell 1 2"
  by (simp add: TreeSet_123 TreeSet_equal_range_def tree_equal_range_def TreeSet_upper_bound_def
       TreeSet_lower_bound_def tree_lower_bound_def tree_upper_bound_def std_less_def iterator_to_def)


end
